theory Spec2Isabelle
  imports Main "HOL-Library.Finite_Map" "HOL-Library.Sublist"
begin

section \<open>The XML token stream\<close>

text \<open>
  The program reads its input through Go's \<open>encoding/xml\<close>. \<open>d.Token()\<close> hands
  out one token per call and an error once the input is exhausted or stops being
  well-formed. The model takes the tokens of the document as a list: the head is the next
  token, the empty list is the point where \<open>d.Token()\<close> returns its error. Of an element
  name only \<open>Name.Local\<close> is kept, the one part the program looks at; attributes are
  never read by it.
\<close>

datatype token =
    StartElement string
  | EndElement string
  | CharData string
  | Comment string
  | ProcInst string
  | Directive string

text \<open>
  \<open>TokenErr\<close> is the error of \<open>d.Token()\<close>, \<open>NumErr\<close> the error of
  \<open>strconv.ParseInt\<close>, \<open>ExpectedElement\<close> the complaint of \<open>xml.Unmarshal\<close> about
  a root element that is not the one the target struct names.
\<close>

datatype xml_error = TokenErr | NumErr | ExpectedElement string string

section \<open>The value tree\<close>

text \<open>
  \<open>KVs\<close> is a Go \<open>map[string]interface{}\<close>: a finite mapping without any order of
  its keys. The dynamic values stored in it are \<open>int\<close>, \<open>string\<close>, \<open>Dict\<close> and
  \<open>Array\<close>; a missing key reads as the nil interface, here \<open>None\<close>.
\<close>

datatype Value = VInt int | VStr string | VDict Dict | VArray Array
  and Dict = Dict (KVs: "(string, Value) fmap")
  and Array = Array (Dicts: "Dict list")

datatype ITunesLib = ITunesLib (D: Dict)

record Track =
  Artist :: string
  Album :: string
  Name :: string

record Playlist =
  PName :: string
  Tracks :: "Track list"

section \<open>Library routines the decoder calls\<close>

subsection \<open>Decoder.Skip\<close>

text \<open>Reads tokens up to the end element that closes the element already opened.\<close>

fun Skip :: "nat \<Rightarrow> token list \<Rightarrow> xml_error + token list" where
  "Skip depth [] = Inl TokenErr"
| "Skip depth (StartElement n # ts) = Skip (Suc depth) ts"
| "Skip depth (EndElement n # ts) = (if depth = 0 then Inr ts else Skip (depth - 1) ts)"
| "Skip depth (CharData s # ts) = Skip depth ts"
| "Skip depth (Comment s # ts) = Skip depth ts"
| "Skip depth (ProcInst s # ts) = Skip depth ts"
| "Skip depth (Directive s # ts) = Skip depth ts"

lemma Skip_length: "Skip depth ts = Inr rest \<Longrightarrow> length rest < length ts"
  by (induction depth ts arbitrary: rest rule: Skip.induct)
     (auto split: if_splits intro: less_SucI)

subsection \<open>DecodeElement into a scalar\<close>

text \<open>
  For a \<open>string\<close> or \<open>int\<close> target \<open>DecodeElement\<close> gathers the character data that
  stands directly inside the element, skips every child element, and stops at the first
  end element it meets itself.
\<close>

function element_data :: "string \<Rightarrow> token list \<Rightarrow> xml_error + (string \<times> token list)" where
  "element_data data [] = Inl TokenErr"
| "element_data data (StartElement n # ts) =
     (case Skip 0 ts of Inl e \<Rightarrow> Inl e | Inr rest \<Rightarrow> element_data data rest)"
| "element_data data (EndElement n # ts) = Inr (data, ts)"
| "element_data data (CharData s # ts) = element_data (data @ s) ts"
| "element_data data (Comment s # ts) = element_data data ts"
| "element_data data (ProcInst s # ts) = element_data data ts"
| "element_data data (Directive s # ts) = element_data data ts"
  by pat_completeness auto
termination
  by (relation "measure (\<lambda>(data, ts). length ts)") (auto dest: Skip_length)

lemma element_data_length:
  "element_data data ts = Inr (s, rest) \<Longrightarrow> length rest < length ts"
  by (induction data ts arbitrary: s rest rule: element_data.induct)
     (fastforce split: sum.splits dest!: Skip_length intro: less_SucI less_trans)+

definition decode_string :: "token list \<Rightarrow> xml_error + (string \<times> token list)" where
  "decode_string ts = element_data [] ts"

subsection \<open>strings.TrimSpace and strconv.ParseInt\<close>

text \<open>
  The runes \<open>unicode.IsSpace\<close> accepts, in UTF-8: the six ASCII ones, U+0085, U+00A0,
  U+1680, U+2000 to U+200A, U+2028, U+2029, U+202F, U+205F and U+3000.
\<close>

definition space_runes :: "string list" where
  "space_runes =
    [[CHR 0x09], [CHR 0x0A], [CHR 0x0B], [CHR 0x0C], [CHR 0x0D], [CHR 0x20],
     [CHR 0xC2, CHR 0x85], [CHR 0xC2, CHR 0xA0], [CHR 0xE1, CHR 0x9A, CHR 0x80],
     [CHR 0xE2, CHR 0x80, CHR 0x80], [CHR 0xE2, CHR 0x80, CHR 0x81],
     [CHR 0xE2, CHR 0x80, CHR 0x82], [CHR 0xE2, CHR 0x80, CHR 0x83],
     [CHR 0xE2, CHR 0x80, CHR 0x84], [CHR 0xE2, CHR 0x80, CHR 0x85],
     [CHR 0xE2, CHR 0x80, CHR 0x86], [CHR 0xE2, CHR 0x80, CHR 0x87],
     [CHR 0xE2, CHR 0x80, CHR 0x88], [CHR 0xE2, CHR 0x80, CHR 0x89],
     [CHR 0xE2, CHR 0x80, CHR 0x8A], [CHR 0xE2, CHR 0x80, CHR 0xA8],
     [CHR 0xE2, CHR 0x80, CHR 0xA9], [CHR 0xE2, CHR 0x80, CHR 0xAF],
     [CHR 0xE2, CHR 0x81, CHR 0x9F], [CHR 0xE3, CHR 0x80, CHR 0x80]]"

definition leading_width :: "string list \<Rightarrow> string \<Rightarrow> nat" where
  "leading_width ws s =
     (case find (\<lambda>w. take (length w) s = w) ws of None \<Rightarrow> 0 | Some w \<Rightarrow> length w)"

fun trim_leading :: "string list \<Rightarrow> string \<Rightarrow> string" where
  "trim_leading ws [] = []"
| "trim_leading ws (c # cs) =
     (case leading_width ws (c # cs) of
        0 \<Rightarrow> c # cs
      | Suc k \<Rightarrow> trim_leading ws (drop k cs))"

definition TrimSpace :: "string \<Rightarrow> string" where
  "TrimSpace s = rev (trim_leading (map rev space_runes) (rev (trim_leading space_runes s)))"

definition digit_of :: "char \<Rightarrow> nat option" where
  "digit_of c =
     (let n = (of_char c :: nat) in if 48 \<le> n \<and> n \<le> 57 then Some (n - 48) else None)"

fun ParseUint :: "nat \<Rightarrow> string \<Rightarrow> nat option" where
  "ParseUint n [] = Some n"
| "ParseUint n (c # cs) =
     (case digit_of c of None \<Rightarrow> None | Some d \<Rightarrow> ParseUint (n * 10 + d) cs)"

text \<open>
  \<open>ParseInt s 10 64\<close>: an optional sign, at least one decimal digit, nothing else, and
  the number within the range of a 64-bit \<open>int\<close>; \<open>None\<close> is the returned error.
\<close>

definition ParseInt :: "string \<Rightarrow> int option" where
  "ParseInt s =
     (case s of
        [] \<Rightarrow> None
      | c # cs \<Rightarrow>
          (let neg = (c = CHR ''-'');
               body = (if c = CHR ''+'' \<or> c = CHR ''-'' then cs else s)
           in if body = [] then None
              else (case ParseUint 0 body of
                      None \<Rightarrow> None
                    | Some un \<Rightarrow>
                        if \<not> neg \<and> un \<ge> 2 ^ 63 then None
                        else if neg \<and> un > 2 ^ 63 then None
                        else Some (if neg then - int un else int un))))"

definition decode_int :: "token list \<Rightarrow> xml_error + (int \<times> token list)" where
  "decode_int ts =
     (case element_data [] ts of
        Inl e \<Rightarrow> Inl e
      | Inr (src, rest) \<Rightarrow>
          if src = [] then Inr (0, rest)
          else (case ParseInt (TrimSpace src) of
                  None \<Rightarrow> Inl NumErr
                | Some v \<Rightarrow> Inr (v, rest)))"

subsection \<open>strconv.Itoa\<close>

definition digit_char :: "nat \<Rightarrow> char" where
  "digit_char n = ''0123456789'' ! n"

fun digits_of :: "nat \<Rightarrow> string" where
  "digits_of n =
     (if n < 10 then [digit_char n] else digits_of (n div 10) @ [digit_char (n mod 10)])"

declare digits_of.simps [simp del]

definition Itoa :: "int \<Rightarrow> string" where
  "Itoa i = (if i < 0 then CHR ''-'' # digits_of (nat (- i)) else digits_of (nat i))"

section \<open>Dict.UnmarshalXML\<close>

text \<open>
  \<open>dict_loop start key kvs\<close> is the \<open>for\<close> loop of \<open>Dict.UnmarshalXML\<close> with its two
  local variables. A nested \<open>dict\<close> goes through \<open>DecodeElement\<close> back into
  \<open>UnmarshalXML\<close> with fresh locals; an \<open>array\<close> is decoded as the struct \<open>Array\<close>,
  whose loop \<open>array_loop\<close> appends every child named \<open>dict\<close> and skips any other child.
  A start element of any other name falls through all five \<open>if\<close>s: the loop goes on with
  the next token.

  After \<open>UnmarshalXML\<close> has returned, \<open>DecodeElement\<close> checks that the element was read
  to its end. On the well-nested streams \<open>d.Token()\<close> hands out, every start element
  named \<open>dict\<close> is consumed by a nested call, so the end element at which the loop
  returns is the one of its own element: the check cannot fail and has no counterpart
  here.
\<close>

function dict_loop ::
    "string \<Rightarrow> string \<Rightarrow> (string, Value) fmap \<Rightarrow> token list \<Rightarrow> xml_error + (Dict \<times> token list)"
  and array_loop :: "Dict list \<Rightarrow> token list \<Rightarrow> xml_error + (Array \<times> token list)"
where
  "dict_loop start key kvs [] = Inl TokenErr"
| "dict_loop start key kvs (EndElement n # ts) =
     (if n = start then Inr (Dict kvs, ts) else dict_loop start key kvs ts)"
| "dict_loop start key kvs (StartElement n # ts) =
     (if n = ''key'' then
        (case decode_string ts of
           Inl e \<Rightarrow> Inl e
         | Inr (k, rest) \<Rightarrow> dict_loop start k kvs rest)
      else if n = ''integer'' then
        (case decode_int ts of
           Inl e \<Rightarrow> Inl e
         | Inr (v, rest) \<Rightarrow> dict_loop start key (fmupd key (VInt v) kvs) rest)
      else if n = ''string'' then
        (case decode_string ts of
           Inl e \<Rightarrow> Inl e
         | Inr (v, rest) \<Rightarrow> dict_loop start key (fmupd key (VStr v) kvs) rest)
      else if n = ''dict'' then
        (case dict_loop n [] fmempty ts of
           Inl e \<Rightarrow> Inl e
         | Inr (v, rest) \<Rightarrow> dict_loop start key (fmupd key (VDict v) kvs) rest)
      else if n = ''array'' then
        (case array_loop [] ts of
           Inl e \<Rightarrow> Inl e
         | Inr (v, rest) \<Rightarrow> dict_loop start key (fmupd key (VArray v) kvs) rest)
      else dict_loop start key kvs ts)"
| "dict_loop start key kvs (CharData s # ts) = dict_loop start key kvs ts"
| "dict_loop start key kvs (Comment s # ts) = dict_loop start key kvs ts"
| "dict_loop start key kvs (ProcInst s # ts) = dict_loop start key kvs ts"
| "dict_loop start key kvs (Directive s # ts) = dict_loop start key kvs ts"
| "array_loop acc [] = Inl TokenErr"
| "array_loop acc (StartElement n # ts) =
     (if n = ''dict'' then
        (case dict_loop n [] fmempty ts of
           Inl e \<Rightarrow> Inl e
         | Inr (v, rest) \<Rightarrow> array_loop (acc @ [v]) rest)
      else
        (case Skip 0 ts of Inl e \<Rightarrow> Inl e | Inr rest \<Rightarrow> array_loop acc rest))"
| "array_loop acc (EndElement n # ts) = Inr (Array acc, ts)"
| "array_loop acc (CharData s # ts) = array_loop acc ts"
| "array_loop acc (Comment s # ts) = array_loop acc ts"
| "array_loop acc (ProcInst s # ts) = array_loop acc ts"
| "array_loop acc (Directive s # ts) = array_loop acc ts"
  by pat_completeness auto

lemma decode_string_length:
  "decode_string ts = Inr (s, rest) \<Longrightarrow> length rest < length ts"
  unfolding decode_string_def by (rule element_data_length)

lemma decode_int_length:
  "decode_int ts = Inr (v, rest) \<Longrightarrow> length rest < length ts"
  unfolding decode_int_def
  by (auto split: sum.splits if_splits option.splits dest: element_data_length)

lemma dict_array_dom_length:
  "dict_loop_array_loop_dom (Inl (start, key, kvs, ts)) \<Longrightarrow>
     dict_loop start key kvs ts = Inr (d, rest) \<Longrightarrow> length rest < length ts"
  "dict_loop_array_loop_dom (Inr (acc, ts)) \<Longrightarrow>
     array_loop acc ts = Inr (a, rest) \<Longrightarrow> length rest < length ts"
proof (induction start key kvs ts and acc ts arbitrary: d rest and a rest
       rule: dict_loop_array_loop.pinduct)
qed (fastforce simp: dict_loop.psimps array_loop.psimps split: if_splits sum.splits
       dest!: Skip_length decode_string_length decode_int_length
       intro: less_SucI less_trans)+

termination dict_loop
  by (relation "measure (\<lambda>x. case x of Inl (start, key, kvs, ts) \<Rightarrow> length ts
                                      | Inr (acc, ts) \<Rightarrow> length ts)")
     (auto dest!: Skip_length decode_string_length decode_int_length dict_array_dom_length
           intro: less_SucI)

definition UnmarshalXML :: "string \<Rightarrow> token list \<Rightarrow> xml_error + (Dict \<times> token list)" where
  "UnmarshalXML start ts = dict_loop start [] fmempty ts"

section \<open>xml.Unmarshal into ITunesLib\<close>

text \<open>
  \<open>xml.Unmarshal\<close> looks for the first start element, checks it against the name the
  struct declares (\<open>plist\<close>), and decodes the struct: a child named \<open>dict\<close> is decoded
  into the field \<open>D\<close>, any other child is skipped, the first end element ends the struct.
  The field starts as the zero \<open>Dict\<close>, whose nil map reads like an empty one.
\<close>

fun find_start :: "token list \<Rightarrow> xml_error + (string \<times> token list)" where
  "find_start [] = Inl TokenErr"
| "find_start (StartElement n # ts) = Inr (n, ts)"
| "find_start (EndElement n # ts) = find_start ts"
| "find_start (CharData s # ts) = find_start ts"
| "find_start (Comment s # ts) = find_start ts"
| "find_start (ProcInst s # ts) = find_start ts"
| "find_start (Directive s # ts) = find_start ts"

lemma dict_array_length:
  "dict_loop start key kvs ts = Inr (d, rest) \<Longrightarrow> length rest < length ts"
  "array_loop acc ts = Inr (a, rest') \<Longrightarrow> length rest' < length ts"
proof (induction start key kvs ts and acc ts arbitrary: d rest and a rest'
       rule: dict_loop_array_loop.induct)
qed (fastforce split: if_splits sum.splits
       dest!: Skip_length decode_string_length decode_int_length
       intro: less_SucI less_trans)+

lemmas dict_loop_length = dict_array_length(1)

function plist_loop :: "ITunesLib \<Rightarrow> token list \<Rightarrow> xml_error + ITunesLib" where
  "plist_loop i [] = Inl TokenErr"
| "plist_loop i (StartElement n # ts) =
     (if n = ''dict'' then
        (case UnmarshalXML n ts of
           Inl e \<Rightarrow> Inl e
         | Inr (v, rest) \<Rightarrow> plist_loop (ITunesLib v) rest)
      else
        (case Skip 0 ts of Inl e \<Rightarrow> Inl e | Inr rest \<Rightarrow> plist_loop i rest))"
| "plist_loop i (EndElement n # ts) = Inr i"
| "plist_loop i (CharData s # ts) = plist_loop i ts"
| "plist_loop i (Comment s # ts) = plist_loop i ts"
| "plist_loop i (ProcInst s # ts) = plist_loop i ts"
| "plist_loop i (Directive s # ts) = plist_loop i ts"
  by pat_completeness auto
termination
  by (relation "measure (\<lambda>(i, ts). length ts)")
     (auto simp: UnmarshalXML_def dest!: Skip_length dict_loop_length intro: less_SucI)

definition Unmarshal :: "token list \<Rightarrow> xml_error + ITunesLib" where
  "Unmarshal ts =
     (case find_start ts of
        Inl e \<Rightarrow> Inl e
      | Inr (n, rest) \<Rightarrow>
          if n \<noteq> ''plist'' then Inl (ExpectedElement ''plist'' n)
          else plist_loop (ITunesLib (Dict fmempty)) rest)"

section \<open>main\<close>

text \<open>
  A failed type assertion and a slice expression out of range are run-time panics: the
  process dies there. \<open>PrintMsg\<close> prints a line to standard output when \<open>Args.Debug\<close>
  is set and does nothing otherwise; standard output is the list of lines printed so far.
\<close>

datatype panic = InterfaceConversion | SliceBounds

definition StringOrDefault :: "Value option \<Rightarrow> string \<Rightarrow> string" where
  "StringOrDefault val alt = (case val of Some (VStr s) \<Rightarrow> s | _ \<Rightarrow> alt)"

definition PrintMsg :: "bool \<Rightarrow> string \<Rightarrow> string list \<Rightarrow> string list" where
  "PrintMsg debug msg out = (if debug then out @ [msg] else out)"

text \<open>The body of the loop over \<open>rawTracks.KVs\<close>, for one entry.\<close>

definition track_of :: "Dict \<Rightarrow> Track" where
  "track_of td =
     \<lparr>Artist = StringOrDefault (fmlookup (KVs td) ''Artist'') ''Unknown Artist'',
      Album = StringOrDefault (fmlookup (KVs td) ''Album'') ''Unknown Album'',
      Name = StringOrDefault (fmlookup (KVs td) ''Name'') ''Unknown Name''\<rparr>"

definition is_dict :: "Value \<Rightarrow> bool" where
  "is_dict v = (case v of VDict td \<Rightarrow> True | _ \<Rightarrow> False)"

definition entry_track :: "Value \<Rightarrow> Track" where
  "entry_track v = (case v of VDict td \<Rightarrow> track_of td | _ \<Rightarrow> track_of (Dict fmempty))"

text \<open>
  The loop over \<open>rawTracks.KVs\<close> visits the entries of a Go map in no fixed order. Each
  round writes \<open>tracks[trackID]\<close> for its own key only, and a round whose entry is not
  a \<open>Dict\<close> panics, whatever was visited before it. So the loop panics when some entry is
  not a \<open>Dict\<close>, and otherwise leaves one \<open>Track\<close> under every key of the map.
  \<open>entry_track\<close> is applied to the entries only in that second case, where each of
  them is a \<open>Dict\<close>; its other branch is never reached.
\<close>

definition build_tracks :: "Dict \<Rightarrow> panic + (string, Track) fmap" where
  "build_tracks rawTracks =
     (if fmpred (\<lambda>trackID trackDict. is_dict trackDict) (KVs rawTracks)
      then Inr (fmmap entry_track (KVs rawTracks))
      else Inl InterfaceConversion)"

text \<open>Indexing the Go map \<open>tracks\<close> with a key it lacks yields the zero \<open>Track\<close>.\<close>

definition lookup_track :: "(string, Track) fmap \<Rightarrow> string \<Rightarrow> Track" where
  "lookup_track tracks k =
     (case fmlookup tracks k of
        Some tk \<Rightarrow> tk
      | None \<Rightarrow> \<lparr>Artist = [], Album = [], Name = []\<rparr>)"

fun items_loop :: "(string, Track) fmap \<Rightarrow> Dict list \<Rightarrow> Track list \<Rightarrow> panic + Track list" where
  "items_loop tracks [] pTracks = Inr pTracks"
| "items_loop tracks (t # ts) pTracks =
     (case fmlookup (KVs t) ''Track ID'' of
        Some (VInt trackID) \<Rightarrow>
          items_loop tracks ts (pTracks @ [lookup_track tracks (Itoa trackID)])
      | _ \<Rightarrow> Inl InterfaceConversion)"

fun playlist_loop ::
  "bool \<Rightarrow> (string, Track) fmap \<Rightarrow> Dict list \<Rightarrow> string list \<Rightarrow> Playlist list
     \<Rightarrow> string list \<times> (panic + Playlist list)" where
  "playlist_loop debug tracks [] out playlists = (out, Inr playlists)"
| "playlist_loop debug tracks (d # ds) out playlists =
     (let name = StringOrDefault (fmlookup (KVs d) ''Name'') ''Unknown Playlist'' in
      case fmlookup (KVs d) ''Playlist Items'' of
        Some (VArray pTracks) \<Rightarrow>
          (case items_loop tracks (Dicts pTracks) [] of
             Inl p \<Rightarrow> (out, Inl p)
           | Inr tks \<Rightarrow>
               playlist_loop debug tracks ds out
                 (playlists @ [\<lparr>PName = name, Tracks = tks\<rparr>]))
      | _ \<Rightarrow>
          playlist_loop debug tracks ds
            (PrintMsg debug (''Error: Playlist '' @ name @ '' has no tracks'') out)
            playlists)"

text \<open>Lines 248 to 283 of \<open>main\<close>: from the decoded library to the list of playlists.\<close>

definition extract_playlists :: "bool \<Rightarrow> ITunesLib \<Rightarrow> string list \<times> (panic + Playlist list)" where
  "extract_playlists debug i =
     (case fmlookup (KVs (D i)) ''Tracks'' of
        Some (VDict rawTracks) \<Rightarrow>
          (case build_tracks rawTracks of
             Inl p \<Rightarrow> ([], Inl p)
           | Inr tracks \<Rightarrow>
               (let out1 = PrintMsg debug
                      (''Library contains '' @ Itoa (int (fcard (fmdom tracks))) @ '' tracks'') []
                in case fmlookup (KVs (D i)) ''Playlists'' of
                     Some (VArray rawPlaylists) \<Rightarrow>
                       (let out2 = PrintMsg debug
                              (''Library contains '' @ Itoa (int (length (Dicts rawPlaylists)))
                                 @ '' playlists'') out1
                        in if length (Dicts rawPlaylists) < 5 then (out2, Inl SliceBounds)
                           else
                             (case playlist_loop debug tracks (drop 5 (Dicts rawPlaylists)) out2 [] of
                                (out3, Inl p) \<Rightarrow> (out3, Inl p)
                              | (out3, Inr playlists) \<Rightarrow>
                                  (PrintMsg debug
                                     (''Parsed '' @ Itoa (int (length playlists))
                                        @ '' playlists successfully'') out3,
                                   Inr playlists)))
                   | _ \<Rightarrow> (out1, Inl InterfaceConversion)))
      | _ \<Rightarrow> ([], Inl InterfaceConversion))"

subsection \<open>Playlists.WriteCSV\<close>

text \<open>The writer is a buffer that takes every write; the result is what it then holds.\<close>

fun write_tracks :: "string \<Rightarrow> Track list \<Rightarrow> string" where
  "write_tracks pname [] = []"
| "write_tracks pname (t # ts) =
     (pname @ '','' @ Artist t @ '','' @ Album t @ '','' @ Name t @ [CHR 0x0A])
       @ write_tracks pname ts"

fun write_playlists :: "Playlist list \<Rightarrow> string" where
  "write_playlists [] = []"
| "write_playlists (p # ps) = write_tracks (PName p) (Tracks p) @ write_playlists ps"

definition WriteCSV :: "Playlist list \<Rightarrow> string" where
  "WriteCSV ps = (''Playlist Name, Artist, Album, Track'' @ [CHR 0x0A]) @ write_playlists ps"

subsection \<open>The run with the format csv\<close>

text \<open>
  \<open>main\<close> with \<open>Args.Format\<close> set to \<open>csv\<close>. \<open>log.Fatalf\<close> ends the run with a
  message; a panic ends it as well. \<open>writable\<close> says whether \<open>os.Create\<close> gave a file
  and every write to it was taken: then the output file receives the CSV text and the
  last message is printed; otherwise \<open>WriteCSV\<close> returns the error of the write that
  failed and \<open>main\<close> ends in \<open>log.Fatalf\<close>, with the output file left in a state
  that is not described here.
\<close>

datatype outcome = Fatal xml_error | Panicked panic | FatalWrite | Wrote string

definition main_csv ::
  "bool \<Rightarrow> string \<Rightarrow> bool \<Rightarrow> token list \<Rightarrow> string list \<times> outcome" where
  "main_csv debug outPath writable ts =
     (case Unmarshal ts of
        Inl e \<Rightarrow> ([], Fatal e)
      | Inr i \<Rightarrow>
          (case extract_playlists debug i of
             (out, Inl p) \<Rightarrow> (out, Panicked p)
           | (out, Inr playlists) \<Rightarrow>
               if writable
               then (PrintMsg debug (''Successfully wrote playlists to '' @ outPath) out,
                     Wrote (WriteCSV playlists))
               else (out, FatalWrite)))"

section \<open>Notions used in the statements\<close>

text \<open>
  \<open>has_items d\<close> holds when the checked assertion \<open>d.KVs["Playlist Items"].(Array)\<close>
  succeeds. \<open>converts tracks d p\<close> holds when \<open>p\<close> is the playlist one round of the
  loop in \<open>main\<close> appends for the dict \<open>d\<close>.
\<close>

definition has_items :: "Dict \<Rightarrow> bool" where
  "has_items d = (case fmlookup (KVs d) ''Playlist Items'' of Some (VArray a) \<Rightarrow> True | _ \<Rightarrow> False)"

definition converts :: "(string, Track) fmap \<Rightarrow> Dict \<Rightarrow> Playlist \<Rightarrow> bool" where
  "converts tracks d p =
     (case fmlookup (KVs d) ''Playlist Items'' of
        Some (VArray a) \<Rightarrow>
          items_loop tracks (Dicts a) [] = Inr (Tracks p) \<and>
          PName p = StringOrDefault (fmlookup (KVs d) ''Name'') ''Unknown Playlist''
      | _ \<Rightarrow> False)"


text \<open>\<open>pair_tokens (k, v)\<close> is the element \<open>key\<close> with text \<open>k\<close> followed by the
  element \<open>string\<close> with text \<open>v\<close>.\<close>

definition pair_tokens :: "string \<times> string \<Rightarrow> token list" where
  "pair_tokens kv =
     [StartElement ''key'', CharData (fst kv), EndElement ''key'',
      StartElement ''string'', CharData (snd kv), EndElement ''string'']"


text \<open>
  \<open>extend_rest s\<close> turns the result of a decoder on a token stream into its result
  on the stream followed by \<open>s\<close>.
\<close>

definition extend_rest :: "'b list \<Rightarrow> 'e + ('a \<times> 'b list) \<Rightarrow> 'e + ('a \<times> 'b list)" where
  "extend_rest s r = (case r of Inl e \<Rightarrow> Inl e | Inr (x, rest) \<Rightarrow> Inr (x, rest @ s))"

lemma extend_rest_simps [simp]:
  "extend_rest s (Inl e) = Inl e"
  "extend_rest s (Inr (x, rest)) = Inr (x, rest @ s)"
  by (simp_all add: extend_rest_def)

section \<open>The loop over the playlists\<close>

lemma playlist_loop_skip:
  "\<not> has_items d \<Longrightarrow>
     playlist_loop debug tracks (d # ds) out acc =
       playlist_loop debug tracks ds
         (PrintMsg debug (''Error: Playlist '' @ StringOrDefault (fmlookup (KVs d) ''Name'') ''Unknown Playlist'' @ '' has no tracks'') out) acc"
  by (simp add: has_items_def split: option.splits Value.splits)

lemma playlist_loop_take:
  "fmlookup (KVs d) ''Playlist Items'' = Some (VArray a) \<Longrightarrow>
     playlist_loop debug tracks (d # ds) out acc =
       (case items_loop tracks (Dicts a) [] of
          Inl p \<Rightarrow> (out, Inl p)
        | Inr tks \<Rightarrow> playlist_loop debug tracks ds out
            (acc @ [\<lparr>PName = StringOrDefault (fmlookup (KVs d) ''Name'') ''Unknown Playlist'', Tracks = tks\<rparr>]))"
  by simp

lemma playlist_loop_append:
  "playlist_loop debug tracks (xs @ ys) out acc =
     (case playlist_loop debug tracks xs out acc of
        (out1, Inl p) \<Rightarrow> (out1, Inl p)
      | (out1, Inr pls1) \<Rightarrow> playlist_loop debug tracks ys out1 pls1)"
proof (induction xs arbitrary: out acc)
  case Nil
  show ?case by simp
next
  case (Cons d xs)
  show ?case
  proof (cases "has_items d")
    case False
    then show ?thesis
      using Cons.IH by (simp add: playlist_loop_skip del: playlist_loop.simps)
  next
    case True
    then obtain a where a: "fmlookup (KVs d) ''Playlist Items'' = Some (VArray a)"
      by (auto simp: has_items_def split: option.splits Value.splits)
    show ?thesis
      using Cons.IH by (simp add: playlist_loop_take[OF a] del: playlist_loop.simps split: sum.splits)
  qed
qed

lemma playlist_loop_result:
  "playlist_loop debug tracks ds out acc = (out', Inr pls) \<Longrightarrow>
     \<exists>new. pls = acc @ new \<and> list_all2 (converts tracks) (filter has_items ds) new"
proof (induction ds arbitrary: out acc)
  case Nil
  then show ?case by simp
next
  case (Cons d ds)
  show ?case
  proof (cases "has_items d")
    case False
    with Cons.prems have "playlist_loop debug tracks ds
         (PrintMsg debug (''Error: Playlist '' @ StringOrDefault (fmlookup (KVs d) ''Name'') ''Unknown Playlist'' @ '' has no tracks'') out) acc = (out', Inr pls)"
      by (simp add: playlist_loop_skip del: playlist_loop.simps)
    from Cons.IH[OF this] False show ?thesis by simp
  next
    case True
    then obtain a where a: "fmlookup (KVs d) ''Playlist Items'' = Some (VArray a)"
      by (auto simp: has_items_def split: option.splits Value.splits)
    from Cons.prems obtain tks where
      tks: "items_loop tracks (Dicts a) [] = Inr tks" and
      rest: "playlist_loop debug tracks ds out
            (acc @ [\<lparr>PName = StringOrDefault (fmlookup (KVs d) ''Name'') ''Unknown Playlist'', Tracks = tks\<rparr>]) = (out', Inr pls)"
      by (auto simp add: playlist_loop_take[OF a] simp del: playlist_loop.simps split: sum.splits)
    from Cons.IH[OF rest] obtain new where
      new: "pls = (acc @ [\<lparr>PName = StringOrDefault (fmlookup (KVs d) ''Name'') ''Unknown Playlist'', Tracks = tks\<rparr>]) @ new"
        "list_all2 (converts tracks) (filter has_items ds) new"
      by blast
    have "converts tracks d \<lparr>PName = StringOrDefault (fmlookup (KVs d) ''Name'') ''Unknown Playlist'', Tracks = tks\<rparr>"
      by (simp add: converts_def a tks)
    with new True show ?thesis by simp
  qed
qed

section \<open>The track lookup\<close>

lemma fmpred_fmupd_fresh:
  "fmlookup m k = None \<Longrightarrow> fmpred P (fmupd k v m) = (P k v \<and> fmpred P m)"
  by (auto simp: fmpred_iff split: if_splits)

lemma build_tracks_lookup:
  assumes "build_tracks rawTracks = Inr tracks"
    and "fmlookup (KVs rawTracks) trackID = Some (VDict td)"
  shows "fmlookup tracks trackID = Some (track_of td)"
  using assms by (auto simp: build_tracks_def entry_track_def split: if_splits)


section \<open>Defaults\<close>

lemma converts_names:
  "list_all2 (converts tracks) xs new \<Longrightarrow>
     map PName new
       = map (\<lambda>d. StringOrDefault (fmlookup (KVs d) ''Name'') ''Unknown Playlist'') xs"
  by (induction rule: list_all2_induct)
     (auto simp: converts_def split: option.splits Value.splits)

text \<open>
  C6. A track dict that sits in \<open>Tracks\<close> is entered into the lookup with each of
  \<open>Artist\<close>, \<open>Album\<close> and \<open>Name\<close> taken from the dict when the entry there is a
  string, and set to \<open>Unknown Artist\<close>, \<open>Unknown Album\<close>, \<open>Unknown Name\<close> when the
  key is missing or holds something else. Every playlist the loop appends, whatever the
  list of dicts and whatever was appended before, carries the \<open>Name\<close> of its dict
  when that is a string and \<open>Unknown Playlist\<close> otherwise: the names of the appended
  playlists are, in order, those of the dicts that pass the \<open>Playlist Items\<close> check.
\<close>

theorem missing_fields_get_defaults:
  "(build_tracks rawTracks = Inr tracks \<and> fmlookup (KVs rawTracks) trackID = Some (VDict td) \<longrightarrow>
      fmlookup tracks trackID =
        Some \<lparr>Artist = (case fmlookup (KVs td) ''Artist'' of
                           Some (VStr s) \<Rightarrow> s | _ \<Rightarrow> ''Unknown Artist''),
              Album = (case fmlookup (KVs td) ''Album'' of
                           Some (VStr s) \<Rightarrow> s | _ \<Rightarrow> ''Unknown Album''),
              Name = (case fmlookup (KVs td) ''Name'' of
                           Some (VStr s) \<Rightarrow> s | _ \<Rightarrow> ''Unknown Name'')\<rparr>)
   \<and> (playlist_loop debug tracks ds out acc = (out', Inr pls) \<longrightarrow>
        (\<exists>new. pls = acc @ new \<and>
           map PName new
             = map (\<lambda>d. case fmlookup (KVs d) ''Name'' of
                          Some (VStr s) \<Rightarrow> s | _ \<Rightarrow> ''Unknown Playlist'')
                 (filter has_items ds)))"
proof (intro conjI impI)
  assume "build_tracks rawTracks = Inr tracks \<and> fmlookup (KVs rawTracks) trackID = Some (VDict td)"
  then have "fmlookup tracks trackID = Some (track_of td)"
    by (blast intro: build_tracks_lookup)
  then show "fmlookup tracks trackID =
        Some \<lparr>Artist = (case fmlookup (KVs td) ''Artist'' of
                           Some (VStr s) \<Rightarrow> s | _ \<Rightarrow> ''Unknown Artist''),
              Album = (case fmlookup (KVs td) ''Album'' of
                           Some (VStr s) \<Rightarrow> s | _ \<Rightarrow> ''Unknown Album''),
              Name = (case fmlookup (KVs td) ''Name'' of
                           Some (VStr s) \<Rightarrow> s | _ \<Rightarrow> ''Unknown Name'')\<rparr>"
    by (simp add: track_of_def StringOrDefault_def)
next
  assume "playlist_loop debug tracks ds out acc = (out', Inr pls)"
  from playlist_loop_result[OF this] obtain new where
    new: "pls = acc @ new" "list_all2 (converts tracks) (filter has_items ds) new"
    by blast
  from converts_names[OF new(2)]
  have "map PName new
          = map (\<lambda>d. case fmlookup (KVs d) ''Name'' of
                       Some (VStr s) \<Rightarrow> s | _ \<Rightarrow> ''Unknown Playlist'')
              (filter has_items ds)"
    by (simp add: StringOrDefault_def)
  with new(1) show "\<exists>new. pls = acc @ new \<and>
           map PName new
             = map (\<lambda>d. case fmlookup (KVs d) ''Name'' of
                          Some (VStr s) \<Rightarrow> s | _ \<Rightarrow> ''Unknown Playlist'')
                 (filter has_items ds)"
    by blast
qed

theorem missing_fields_get_defaults_witness:
  "build_tracks (Dict (fmupd ''7'' (VDict (Dict (fmupd ''Artist'' (VStr ''OK Go'')
       (fmupd ''Album'' (VInt 3) fmempty)))) fmempty))
     = Inr (fmupd ''7'' \<lparr>Artist = ''OK Go'', Album = ''Unknown Album'', Name = ''Unknown Name''\<rparr> fmempty)
   \<and> fmlookup (fmupd ''7'' \<lparr>Artist = ''OK Go'', Album = ''Unknown Album'', Name = ''Unknown Name''\<rparr> fmempty) ''7''
       = Some \<lparr>Artist = ''OK Go'', Album = ''Unknown Album'', Name = ''Unknown Name''\<rparr>
   \<and> playlist_loop False fmempty
        [Dict (fmupd ''Name'' (VStr ''Gym'') (fmupd ''Playlist Items'' (VArray (Array [])) fmempty)),
         Dict (fmupd ''Name'' (VStr ''Empty'') fmempty),
         Dict (fmupd ''Playlist Items'' (VArray (Array [])) fmempty),
         Dict (fmupd ''Name'' (VInt 4) (fmupd ''Playlist Items'' (VArray (Array [])) fmempty))]
        [] [\<lparr>PName = ''Before'', Tracks = []\<rparr>]
       = ([], Inr ([\<lparr>PName = ''Before'', Tracks = []\<rparr>] @
                   [\<lparr>PName = ''Gym'', Tracks = []\<rparr>,
                    \<lparr>PName = ''Unknown Playlist'', Tracks = []\<rparr>,
                    \<lparr>PName = ''Unknown Playlist'', Tracks = []\<rparr>]))
   \<and> map PName [\<lparr>PName = ''Gym'', Tracks = []\<rparr>,
                  \<lparr>PName = ''Unknown Playlist'', Tracks = []\<rparr>,
                  \<lparr>PName = ''Unknown Playlist'', Tracks = []\<rparr>]
       = [''Gym'', ''Unknown Playlist'', ''Unknown Playlist'']"
proof -
  let ?raw = "Dict (fmupd ''7'' (VDict (Dict (fmupd ''Artist'' (VStr ''OK Go'')
         (fmupd ''Album'' (VInt 3) fmempty)))) fmempty)"
  let ?tracks = "fmupd ''7'' \<lparr>Artist = ''OK Go'', Album = ''Unknown Album'',
         Name = ''Unknown Name''\<rparr> fmempty"
  let ?ds = "[Dict (fmupd ''Name'' (VStr ''Gym'') (fmupd ''Playlist Items'' (VArray (Array [])) fmempty)),
         Dict (fmupd ''Name'' (VStr ''Empty'') fmempty),
         Dict (fmupd ''Playlist Items'' (VArray (Array [])) fmempty),
         Dict (fmupd ''Name'' (VInt 4) (fmupd ''Playlist Items'' (VArray (Array [])) fmempty))]"
  let ?acc = "[\<lparr>PName = ''Before'', Tracks = []\<rparr>]"
  let ?new = "[\<lparr>PName = ''Gym'', Tracks = []\<rparr>,
               \<lparr>PName = ''Unknown Playlist'', Tracks = []\<rparr>,
               \<lparr>PName = ''Unknown Playlist'', Tracks = []\<rparr>]"
  have b: "build_tracks ?raw = Inr ?tracks"
    by (simp add: build_tracks_def fmpred_fmupd_fresh is_dict_def fmmap_fmupd entry_track_def
          track_of_def StringOrDefault_def)
  have l: "playlist_loop False fmempty ?ds [] ?acc = ([], Inr (?acc @ ?new))"
    by (simp add: StringOrDefault_def PrintMsg_def)
  note t = missing_fields_get_defaults[where rawTracks = ?raw and tracks = ?tracks
      and trackID = "''7''"
      and td = "Dict (fmupd ''Artist'' (VStr ''OK Go'') (fmupd ''Album'' (VInt 3) fmempty))"]
  from t b have 1: "fmlookup ?tracks ''7''
       = Some \<lparr>Artist = ''OK Go'', Album = ''Unknown Album'', Name = ''Unknown Name''\<rparr>"
    by simp
  from missing_fields_get_defaults[where tracks = fmempty and debug = False and ds = ?ds
      and out = "[]" and acc = ?acc and out' = "[]" and pls = "?acc @ ?new"] l
  have 2: "map PName ?new = [''Gym'', ''Unknown Playlist'', ''Unknown Playlist'']"
    by (simp add: has_items_def)
  from b 1 l 2 show ?thesis by simp
qed

section \<open>Fewer than five playlists\<close>

text \<open>
  C10. When the \<open>Playlists\<close> array of a decoded library has fewer than five entries the
  run does not come out of the extraction with a list of playlists, empty or not: it
  panics. Where the track lookup has been built, the panic is the one of the slice
  expression \<open>rawPlaylists.Dicts[5:]\<close>.
\<close>

theorem fewer_than_five_playlists_panics:
  assumes "Unmarshal ts = Inr i"
    and "fmlookup (KVs (D i)) ''Playlists'' = Some (VArray a)"
    and "length (Dicts a) < 5"
  shows "(\<exists>p. snd (main_csv debug outPath writable ts) = Panicked p) \<and>
         (\<forall>rawTracks tracks.
            fmlookup (KVs (D i)) ''Tracks'' = Some (VDict rawTracks) \<and>
            build_tracks rawTracks = Inr tracks \<longrightarrow>
              snd (main_csv debug outPath writable ts) = Panicked SliceBounds)"
  using assms
  by (auto simp: main_csv_def extract_playlists_def Let_def
           split: option.splits Value.splits sum.splits prod.splits)

lemma Unmarshal_short_doc:
  "Unmarshal
       [StartElement ''plist'', StartElement ''dict'',
        StartElement ''key'', CharData ''Tracks'', EndElement ''key'',
        StartElement ''dict'', EndElement ''dict'',
        StartElement ''key'', CharData ''Playlists'', EndElement ''key'',
        StartElement ''array'', StartElement ''dict'', EndElement ''dict'', EndElement ''array'',
        EndElement ''dict'', EndElement ''plist'']
     = Inr (ITunesLib (Dict (fmupd ''Playlists'' (VArray (Array [Dict fmempty]))
              (fmupd ''Tracks'' (VDict (Dict fmempty)) fmempty))))"
  by (simp add: Unmarshal_def UnmarshalXML_def decode_string_def)

theorem fewer_than_five_playlists_panics_witness:
  "Unmarshal
       [StartElement ''plist'', StartElement ''dict'',
        StartElement ''key'', CharData ''Tracks'', EndElement ''key'',
        StartElement ''dict'', EndElement ''dict'',
        StartElement ''key'', CharData ''Playlists'', EndElement ''key'',
        StartElement ''array'', StartElement ''dict'', EndElement ''dict'', EndElement ''array'',
        EndElement ''dict'', EndElement ''plist'']
     = Inr (ITunesLib (Dict (fmupd ''Playlists'' (VArray (Array [Dict fmempty]))
              (fmupd ''Tracks'' (VDict (Dict fmempty)) fmempty))))
   \<and> length (Dicts (Array [Dict fmempty])) < 5
   \<and> build_tracks (Dict fmempty) = Inr fmempty
   \<and> snd (main_csv False ''playlists.txt'' True
       [StartElement ''plist'', StartElement ''dict'',
        StartElement ''key'', CharData ''Tracks'', EndElement ''key'',
        StartElement ''dict'', EndElement ''dict'',
        StartElement ''key'', CharData ''Playlists'', EndElement ''key'',
        StartElement ''array'', StartElement ''dict'', EndElement ''dict'', EndElement ''array'',
        EndElement ''dict'', EndElement ''plist'']) = Panicked SliceBounds"
proof -
  have b: "build_tracks (Dict fmempty) = Inr fmempty"
    by (simp add: build_tracks_def)
  have l: "fmlookup (KVs (D (ITunesLib (Dict (fmupd ''Playlists'' (VArray (Array [Dict fmempty]))
              (fmupd ''Tracks'' (VDict (Dict fmempty)) fmempty)))))) ''Playlists''
            = Some (VArray (Array [Dict fmempty]))"
    by simp
  have n: "length (Dicts (Array [Dict fmempty])) < 5" by simp
  from fewer_than_five_playlists_panics[OF Unmarshal_short_doc l n, of False "''playlists.txt''" True] b
  show ?thesis using Unmarshal_short_doc by simp
qed

section \<open>A playlist without items\<close>

text \<open>
  Without \<open>Args.Debug\<close> the run prints nothing for a playlist that lacks
  \<open>Playlist Items\<close>: standard output is empty after the extraction.
\<close>

theorem playlist_without_items_counterexample:
  "\<not> has_items (Dict (fmupd ''Name'' (VStr ''Mix'') fmempty)) \<and>
   extract_playlists False
     (ITunesLib (Dict
        (fmupd ''Tracks'' (VDict (Dict fmempty))
        (fmupd ''Playlists'' (VArray (Array
            [Dict fmempty, Dict fmempty, Dict fmempty, Dict fmempty, Dict fmempty,
             Dict (fmupd ''Name'' (VStr ''Mix'') fmempty)]))
         fmempty))))
     = ([], Inr [])"
  by (simp add: has_items_def extract_playlists_def build_tracks_def PrintMsg_def)

text \<open>
  C5, amended. A candidate whose \<open>Playlist Items\<close> is missing or is not an \<open>Array\<close>
  adds no playlist; the line \<open>Error: Playlist <name> has no tracks\<close> is printed when
  \<open>Args.Debug\<close> is set and nothing is printed otherwise; the loop goes on with the
  candidates after it. This holds wherever the candidate stands among the others.
\<close>

theorem playlist_without_items_skipped:
  assumes "\<not> has_items d"
    and "playlist_loop debug tracks pre out acc = (out1, Inr pls1)"
  shows "playlist_loop debug tracks (pre @ d # ds) out acc =
           playlist_loop debug tracks ds
             (if debug
              then out1 @ [''Error: Playlist '' @
                     StringOrDefault (fmlookup (KVs d) ''Name'') ''Unknown Playlist'' @
                     '' has no tracks'']
              else out1)
             pls1"
  using assms
  by (simp add: playlist_loop_append playlist_loop_skip PrintMsg_def del: playlist_loop.simps)

theorem playlist_without_items_skipped_witness:
  "\<not> has_items (Dict (fmupd ''Name'' (VStr ''Mix'') fmempty)) \<and>
   playlist_loop True fmempty
     [Dict (fmupd ''Playlist Items'' (VArray (Array [])) fmempty)] [] []
       = ([], Inr [\<lparr>PName = ''Unknown Playlist'', Tracks = []\<rparr>]) \<and>
   playlist_loop True fmempty
     ([Dict (fmupd ''Playlist Items'' (VArray (Array [])) fmempty)]
        @ Dict (fmupd ''Name'' (VStr ''Mix'') fmempty)
        # [Dict (fmupd ''Name'' (VStr ''Late'')
              (fmupd ''Playlist Items'' (VArray (Array [])) fmempty))]) [] []
       = ([''Error: Playlist Mix has no tracks''],
          Inr [\<lparr>PName = ''Unknown Playlist'', Tracks = []\<rparr>, \<lparr>PName = ''Late'', Tracks = []\<rparr>])"
proof -
  have h: "\<not> has_items (Dict (fmupd ''Name'' (VStr ''Mix'') fmempty))"
    by (simp add: has_items_def)
  have p: "playlist_loop True fmempty
     [Dict (fmupd ''Playlist Items'' (VArray (Array [])) fmempty)] [] []
       = ([], Inr [\<lparr>PName = ''Unknown Playlist'', Tracks = []\<rparr>])"
    by (simp add: StringOrDefault_def)
  show ?thesis
    using h p playlist_without_items_skipped[OF h p,
        of "[Dict (fmupd ''Name'' (VStr ''Late'')
              (fmupd ''Playlist Items'' (VArray (Array [])) fmempty))]"]
    by (simp add: StringOrDefault_def)
qed

section \<open>A track ID that is not in the lookup\<close>

text \<open>
  C4. The claim asks that a track ID without an entry in \<open>Tracks\<close> never yields a
  track whose fields are all empty. The code yields exactly that: with track \<open>1\<close> in
  the library and a playlist item that names track \<open>2\<close>, the playlist receives the
  zero \<open>Track\<close> and the CSV line \<open>Mix,,,\<close>. The run does not crash.
\<close>

theorem unknown_track_id_gives_blank_track:
  "extract_playlists False
     (ITunesLib (Dict
        (fmupd ''Tracks'' (VDict (Dict (fmupd ''1'' (VDict (Dict
            (fmupd ''Name'' (VStr ''Sandstorm'') fmempty))) fmempty)))
        (fmupd ''Playlists'' (VArray (Array
            [Dict fmempty, Dict fmempty, Dict fmempty, Dict fmempty, Dict fmempty,
             Dict (fmupd ''Name'' (VStr ''Mix'')
               (fmupd ''Playlist Items'' (VArray (Array
                  [Dict (fmupd ''Track ID'' (VInt 2) fmempty)])) fmempty))]))
         fmempty))))
     = ([], Inr [\<lparr>PName = ''Mix'', Tracks = [\<lparr>Artist = [], Album = [], Name = []\<rparr>]\<rparr>])
   \<and> WriteCSV [\<lparr>PName = ''Mix'', Tracks = [\<lparr>Artist = [], Album = [], Name = []\<rparr>]\<rparr>]
       = ''Playlist Name, Artist, Album, Track'' @ [CHR 0x0A] @ ''Mix,,,'' @ [CHR 0x0A]"
  by (simp add: extract_playlists_def build_tracks_def fmpred_fmupd_fresh is_dict_def
        PrintMsg_def StringOrDefault_def lookup_track_def Itoa_def digits_of.simps[of 2]
        digit_char_def WriteCSV_def)

section \<open>Playlists from index five\<close>

lemma extract_playlists_Inr:
  assumes "extract_playlists debug i = (out, Inr pls)"
  shows "\<exists>rawTracks tracks a out2 out3.
           fmlookup (KVs (D i)) ''Tracks'' = Some (VDict rawTracks) \<and>
           build_tracks rawTracks = Inr tracks \<and>
           fmlookup (KVs (D i)) ''Playlists'' = Some (VArray a) \<and>
           5 \<le> length (Dicts a) \<and>
           playlist_loop debug tracks (drop 5 (Dicts a)) out2 [] = (out3, Inr pls)"
  using assms
  by (auto simp: extract_playlists_def Let_def
           split: option.splits Value.splits sum.splits prod.splits if_splits)

lemma drop_5_of_7:
  assumes "length ds = 7"
  shows "drop 5 ds = [ds ! 5, ds ! 6]"
proof -
  have "drop 5 ds = ds ! 5 # drop 6 ds"
    using assms Cons_nth_drop_Suc[of 5 ds] by simp
  moreover have "drop 6 ds = ds ! 6 # drop 7 ds"
    using assms Cons_nth_drop_Suc[of 6 ds] by simp
  ultimately show ?thesis using assms by simp
qed

text \<open>
  C3. When the extraction of a library with at least five entries in \<open>Playlists\<close> ends
  with a list of playlists, that list matches, one to one and in order, the entries from
  index 5 on that carry a \<open>Playlist Items\<close> array (the others are skipped, see C5):
  no entry before index 5 has a playlist in the output. With seven entries of which the
  last two carry \<open>Playlist Items\<close>, the output is exactly their two playlists, in
  their order.
\<close>

theorem playlists_start_at_index_five:
  assumes "fmlookup (KVs (D i)) ''Playlists'' = Some (VArray a)"
    and "5 \<le> length (Dicts a)"
    and "extract_playlists debug i = (out, Inr pls)"
  shows "\<exists>rawTracks tracks.
           fmlookup (KVs (D i)) ''Tracks'' = Some (VDict rawTracks) \<and>
           build_tracks rawTracks = Inr tracks \<and>
           list_all2 (converts tracks) (filter has_items (drop 5 (Dicts a))) pls \<and>
           (length (Dicts a) = 7 \<and> has_items (Dicts a ! 5) \<and> has_items (Dicts a ! 6) \<longrightarrow>
              (\<exists>p q. pls = [p, q] \<and> converts tracks (Dicts a ! 5) p \<and>
                     converts tracks (Dicts a ! 6) q))"
proof -
  from extract_playlists_Inr[OF assms(3)] assms(1)
  obtain rawTracks tracks out2 out3 where
    t: "fmlookup (KVs (D i)) ''Tracks'' = Some (VDict rawTracks)"
       "build_tracks rawTracks = Inr tracks" and
    l: "playlist_loop debug tracks (drop 5 (Dicts a)) out2 [] = (out3, Inr pls)"
    by auto
  from playlist_loop_result[OF l]
  have r: "list_all2 (converts tracks) (filter has_items (drop 5 (Dicts a))) pls"
    by simp
  have "\<exists>p q. pls = [p, q] \<and> converts tracks (Dicts a ! 5) p \<and> converts tracks (Dicts a ! 6) q"
    if "length (Dicts a) = 7" "has_items (Dicts a ! 5)" "has_items (Dicts a ! 6)"
    using r that by (auto simp: drop_5_of_7 list_all2_Cons1)
  with t r show ?thesis by blast
qed

theorem playlists_start_at_index_five_witness:
  "fmlookup (KVs (D (ITunesLib (Dict
        (fmupd ''Tracks'' (VDict (Dict fmempty))
        (fmupd ''Playlists'' (VArray (Array
            [Dict (fmupd ''Name'' (VStr ''Library'') (fmupd ''Playlist Items'' (VArray (Array [])) fmempty)),
             Dict fmempty, Dict fmempty, Dict fmempty, Dict fmempty,
             Dict (fmupd ''Name'' (VStr ''First'') (fmupd ''Playlist Items'' (VArray (Array [])) fmempty)),
             Dict (fmupd ''Name'' (VStr ''Second'') (fmupd ''Playlist Items'' (VArray (Array [])) fmempty))]))
         fmempty)))))) ''Playlists''
     = Some (VArray (Array
            [Dict (fmupd ''Name'' (VStr ''Library'') (fmupd ''Playlist Items'' (VArray (Array [])) fmempty)),
             Dict fmempty, Dict fmempty, Dict fmempty, Dict fmempty,
             Dict (fmupd ''Name'' (VStr ''First'') (fmupd ''Playlist Items'' (VArray (Array [])) fmempty)),
             Dict (fmupd ''Name'' (VStr ''Second'') (fmupd ''Playlist Items'' (VArray (Array [])) fmempty))]))
   \<and> extract_playlists False (ITunesLib (Dict
        (fmupd ''Tracks'' (VDict (Dict fmempty))
        (fmupd ''Playlists'' (VArray (Array
            [Dict (fmupd ''Name'' (VStr ''Library'') (fmupd ''Playlist Items'' (VArray (Array [])) fmempty)),
             Dict fmempty, Dict fmempty, Dict fmempty, Dict fmempty,
             Dict (fmupd ''Name'' (VStr ''First'') (fmupd ''Playlist Items'' (VArray (Array [])) fmempty)),
             Dict (fmupd ''Name'' (VStr ''Second'') (fmupd ''Playlist Items'' (VArray (Array [])) fmempty))]))
         fmempty))))
     = ([], Inr [\<lparr>PName = ''First'', Tracks = []\<rparr>, \<lparr>PName = ''Second'', Tracks = []\<rparr>])
   \<and> list_all2 (converts fmempty)
        [Dict (fmupd ''Name'' (VStr ''First'') (fmupd ''Playlist Items'' (VArray (Array [])) fmempty)),
         Dict (fmupd ''Name'' (VStr ''Second'') (fmupd ''Playlist Items'' (VArray (Array [])) fmempty))]
        [\<lparr>PName = ''First'', Tracks = []\<rparr>, \<lparr>PName = ''Second'', Tracks = []\<rparr>]"
proof -
  let ?ds = "[Dict (fmupd ''Name'' (VStr ''Library'') (fmupd ''Playlist Items'' (VArray (Array [])) fmempty)),
             Dict fmempty, Dict fmempty, Dict fmempty, Dict fmempty,
             Dict (fmupd ''Name'' (VStr ''First'') (fmupd ''Playlist Items'' (VArray (Array [])) fmempty)),
             Dict (fmupd ''Name'' (VStr ''Second'') (fmupd ''Playlist Items'' (VArray (Array [])) fmempty))]"
  let ?i = "ITunesLib (Dict (fmupd ''Tracks'' (VDict (Dict fmempty))
              (fmupd ''Playlists'' (VArray (Array ?ds)) fmempty)))"
  have l: "fmlookup (KVs (D ?i)) ''Playlists'' = Some (VArray (Array ?ds))"
    by simp
  have n: "5 \<le> length (Dicts (Array ?ds))"
    by simp
  have e: "extract_playlists False ?i
     = ([], Inr [\<lparr>PName = ''First'', Tracks = []\<rparr>, \<lparr>PName = ''Second'', Tracks = []\<rparr>])"
    by (simp add: extract_playlists_def build_tracks_def PrintMsg_def StringOrDefault_def)
  from playlists_start_at_index_five[OF l n e]
  have "list_all2 (converts fmempty) (filter has_items (drop 5 ?ds))
          [\<lparr>PName = ''First'', Tracks = []\<rparr>, \<lparr>PName = ''Second'', Tracks = []\<rparr>]"
    by (simp add: build_tracks_def)
  then show ?thesis
    using l e by (simp add: has_items_def)
qed

section \<open>The end-to-end scenario\<close>

lemma Itoa_1: "Itoa 1 = ''1''"
  by (simp add: Itoa_def digits_of.simps[of "Suc 0"] digit_char_def)

lemma snd_playlist_loop_one:
  "snd (playlist_loop debug tracks
          [Dict (fmupd ''Name'' (VStr n)
             (fmupd ''Playlist Items'' (VArray (Array [Dict (fmupd ''Track ID'' (VInt k) fmempty)]))
                fmempty))] out [])
     = Inr [\<lparr>PName = n, Tracks = [lookup_track tracks (Itoa k)]\<rparr>]"
  by (simp add: StringOrDefault_def)

text \<open>
  C8. \<open>Tracks\<close> maps \<open>1\<close> to the track Sandstorm by Darude from Before The Storm,
  \<open>Playlists\<close> has six entries, the first five arbitrary, the sixth named My Playlist
  with the one item of track ID 1; whatever else the root dict holds. The extraction
  yields the one playlist My Playlist with that one track, and \<open>WriteCSV\<close> renders it
  as the header line and the line \<open>My Playlist,Darude,Before The Storm,Sandstorm\<close>.
\<close>

theorem sandstorm_scenario:
  assumes "length pre = 5"
  shows "snd (extract_playlists debug
           (ITunesLib (Dict
              (fmupd ''Tracks'' (VDict (Dict (fmupd ''1'' (VDict (Dict
                   (fmupd ''Name'' (VStr ''Sandstorm'')
                   (fmupd ''Artist'' (VStr ''Darude'')
                   (fmupd ''Album'' (VStr ''Before The Storm'') fmempty))))) fmempty)))
              (fmupd ''Playlists'' (VArray (Array (pre @
                 [Dict (fmupd ''Name'' (VStr ''My Playlist'')
                    (fmupd ''Playlist Items''
                       (VArray (Array [Dict (fmupd ''Track ID'' (VInt 1) fmempty)]))
                       fmempty))])))
               m)))))
         = Inr [\<lparr>PName = ''My Playlist'',
                 Tracks = [\<lparr>Artist = ''Darude'', Album = ''Before The Storm'',
                            Name = ''Sandstorm''\<rparr>]\<rparr>]
       \<and> WriteCSV [\<lparr>PName = ''My Playlist'',
                 Tracks = [\<lparr>Artist = ''Darude'', Album = ''Before The Storm'',
                            Name = ''Sandstorm''\<rparr>]\<rparr>]
         = ''Playlist Name, Artist, Album, Track'' @ [CHR 0x0A] @
           ''My Playlist,Darude,Before The Storm,Sandstorm'' @ [CHR 0x0A]"
proof -
  let ?tracks = "fmupd ''1'' \<lparr>Artist = ''Darude'', Album = ''Before The Storm'',
                            Name = ''Sandstorm''\<rparr> fmempty"
  let ?p = "Dict (fmupd ''Name'' (VStr ''My Playlist'')
                    (fmupd ''Playlist Items''
                       (VArray (Array [Dict (fmupd ''Track ID'' (VInt 1) fmempty)]))
                       fmempty))"
  have b: "build_tracks (Dict (fmupd ''1'' (VDict (Dict
                   (fmupd ''Name'' (VStr ''Sandstorm'')
                   (fmupd ''Artist'' (VStr ''Darude'')
                   (fmupd ''Album'' (VStr ''Before The Storm'') fmempty))))) fmempty))
           = Inr ?tracks"
    by (simp add: build_tracks_def fmpred_fmupd_fresh is_dict_def fmmap_fmupd entry_track_def
          track_of_def StringOrDefault_def)
  have l: "snd (playlist_loop debug ?tracks [?p] out [])
           = Inr [\<lparr>PName = ''My Playlist'',
                 Tracks = [\<lparr>Artist = ''Darude'', Album = ''Before The Storm'',
                            Name = ''Sandstorm''\<rparr>]\<rparr>]" for out
    by (simp only: snd_playlist_loop_one Itoa_1) (simp add: lookup_track_def)
  have e: "snd (extract_playlists debug
           (ITunesLib (Dict
              (fmupd ''Tracks'' (VDict (Dict (fmupd ''1'' (VDict (Dict
                   (fmupd ''Name'' (VStr ''Sandstorm'')
                   (fmupd ''Artist'' (VStr ''Darude'')
                   (fmupd ''Album'' (VStr ''Before The Storm'') fmempty))))) fmempty)))
              (fmupd ''Playlists'' (VArray (Array (pre @ [?p]))) m)))))
         = Inr [\<lparr>PName = ''My Playlist'',
                 Tracks = [\<lparr>Artist = ''Darude'', Album = ''Before The Storm'',
                            Name = ''Sandstorm''\<rparr>]\<rparr>]"
    unfolding extract_playlists_def Let_def
    using assms l
    by (simp add: b split: prod.splits sum.splits del: playlist_loop.simps)
       (metis snd_conv sum.inject(2) sum.distinct(1))
  show ?thesis
    using e by (simp add: WriteCSV_def)
qed


lemma Unmarshal_sandstorm_doc:
  "Unmarshal
     [ProcInst ''xml'', Directive ''DOCTYPE plist'', StartElement ''plist'', StartElement ''dict'',
      StartElement ''key'', CharData ''Tracks'', EndElement ''key'',
      StartElement ''dict'',
        StartElement ''key'', CharData ''1'', EndElement ''key'',
        StartElement ''dict'',
          StartElement ''key'', CharData ''Album'', EndElement ''key'',
          StartElement ''string'', CharData ''Before The Storm'', EndElement ''string'',
          StartElement ''key'', CharData ''Artist'', EndElement ''key'',
          StartElement ''string'', CharData ''Darude'', EndElement ''string'',
          StartElement ''key'', CharData ''Name'', EndElement ''key'',
          StartElement ''string'', CharData ''Sandstorm'', EndElement ''string'',
        EndElement ''dict'',
      EndElement ''dict'',
      StartElement ''key'', CharData ''Playlists'', EndElement ''key'',
      StartElement ''array'',
        StartElement ''dict'', EndElement ''dict'',
        StartElement ''dict'', EndElement ''dict'',
        StartElement ''dict'', EndElement ''dict'',
        StartElement ''dict'', EndElement ''dict'',
        StartElement ''dict'', EndElement ''dict'',
        StartElement ''dict'',
          StartElement ''key'', CharData ''Playlist Items'', EndElement ''key'',
          StartElement ''array'',
            StartElement ''dict'',
              StartElement ''key'', CharData ''Track ID'', EndElement ''key'',
              StartElement ''integer'', CharData ''1'', EndElement ''integer'',
            EndElement ''dict'',
          EndElement ''array'',
          StartElement ''key'', CharData ''Name'', EndElement ''key'',
          StartElement ''string'', CharData ''My Playlist'', EndElement ''string'',
        EndElement ''dict'',
      EndElement ''array'',
      EndElement ''dict'', EndElement ''plist'']
   = Inr (ITunesLib (Dict
              (fmupd ''Tracks'' (VDict (Dict (fmupd ''1'' (VDict (Dict
                   (fmupd ''Name'' (VStr ''Sandstorm'')
                   (fmupd ''Artist'' (VStr ''Darude'')
                   (fmupd ''Album'' (VStr ''Before The Storm'') fmempty))))) fmempty)))
              (fmupd ''Playlists'' (VArray (Array
                 ([Dict fmempty, Dict fmempty, Dict fmempty, Dict fmempty, Dict fmempty] @
                 [Dict (fmupd ''Name'' (VStr ''My Playlist'')
                    (fmupd ''Playlist Items''
                       (VArray (Array [Dict (fmupd ''Track ID'' (VInt 1) fmempty)]))
                       fmempty))])))
               fmempty))))"
  by (simp add: Unmarshal_def UnmarshalXML_def decode_string_def decode_int_def
        TrimSpace_def leading_width_def space_runes_def ParseInt_def digit_of_def
        fmupd_reorder_neq[of "''Tracks''" "''Playlists''"])


theorem sandstorm_scenario_witness:
  "length [Dict fmempty, Dict fmempty, Dict fmempty, Dict fmempty, Dict fmempty] = 5 \<and>
   snd (main_csv False ''playlists.txt'' True
     [ProcInst ''xml'', Directive ''DOCTYPE plist'', StartElement ''plist'', StartElement ''dict'',
      StartElement ''key'', CharData ''Tracks'', EndElement ''key'',
      StartElement ''dict'',
        StartElement ''key'', CharData ''1'', EndElement ''key'',
        StartElement ''dict'',
          StartElement ''key'', CharData ''Album'', EndElement ''key'',
          StartElement ''string'', CharData ''Before The Storm'', EndElement ''string'',
          StartElement ''key'', CharData ''Artist'', EndElement ''key'',
          StartElement ''string'', CharData ''Darude'', EndElement ''string'',
          StartElement ''key'', CharData ''Name'', EndElement ''key'',
          StartElement ''string'', CharData ''Sandstorm'', EndElement ''string'',
        EndElement ''dict'',
      EndElement ''dict'',
      StartElement ''key'', CharData ''Playlists'', EndElement ''key'',
      StartElement ''array'',
        StartElement ''dict'', EndElement ''dict'',
        StartElement ''dict'', EndElement ''dict'',
        StartElement ''dict'', EndElement ''dict'',
        StartElement ''dict'', EndElement ''dict'',
        StartElement ''dict'', EndElement ''dict'',
        StartElement ''dict'',
          StartElement ''key'', CharData ''Playlist Items'', EndElement ''key'',
          StartElement ''array'',
            StartElement ''dict'',
              StartElement ''key'', CharData ''Track ID'', EndElement ''key'',
              StartElement ''integer'', CharData ''1'', EndElement ''integer'',
            EndElement ''dict'',
          EndElement ''array'',
          StartElement ''key'', CharData ''Name'', EndElement ''key'',
          StartElement ''string'', CharData ''My Playlist'', EndElement ''string'',
        EndElement ''dict'',
      EndElement ''array'',
      EndElement ''dict'', EndElement ''plist''])
   = Wrote (''Playlist Name, Artist, Album, Track'' @ [CHR 0x0A] @
           ''My Playlist,Darude,Before The Storm,Sandstorm'' @ [CHR 0x0A])"
proof -
  have n: "length [Dict fmempty, Dict fmempty, Dict fmempty, Dict fmempty, Dict fmempty] = 5"
    by simp
  let ?i = "ITunesLib (Dict
              (fmupd ''Tracks'' (VDict (Dict (fmupd ''1'' (VDict (Dict
                   (fmupd ''Name'' (VStr ''Sandstorm'')
                   (fmupd ''Artist'' (VStr ''Darude'')
                   (fmupd ''Album'' (VStr ''Before The Storm'') fmempty))))) fmempty)))
              (fmupd ''Playlists'' (VArray (Array
                 ([Dict fmempty, Dict fmempty, Dict fmempty, Dict fmempty, Dict fmempty] @
                 [Dict (fmupd ''Name'' (VStr ''My Playlist'')
                    (fmupd ''Playlist Items''
                       (VArray (Array [Dict (fmupd ''Track ID'' (VInt 1) fmempty)]))
                       fmempty))])))
               fmempty)))"
  let ?ps = "[\<lparr>PName = ''My Playlist'',
                 Tracks = [\<lparr>Artist = ''Darude'', Album = ''Before The Storm'',
                            Name = ''Sandstorm''\<rparr>]\<rparr>]"
  from sandstorm_scenario[OF n, of False fmempty]
  have s: "snd (extract_playlists False ?i) = Inr ?ps"
    and w: "WriteCSV ?ps = ''Playlist Name, Artist, Album, Track'' @ [CHR 0x0A] @
           ''My Playlist,Darude,Before The Storm,Sandstorm'' @ [CHR 0x0A]"
    by simp_all
  from s obtain out where "extract_playlists False ?i = (out, Inr ?ps)"
    by (cases "extract_playlists False ?i") simp
  then have "snd (main_csv False ''playlists.txt'' True
     [ProcInst ''xml'', Directive ''DOCTYPE plist'', StartElement ''plist'', StartElement ''dict'',
      StartElement ''key'', CharData ''Tracks'', EndElement ''key'',
      StartElement ''dict'',
        StartElement ''key'', CharData ''1'', EndElement ''key'',
        StartElement ''dict'',
          StartElement ''key'', CharData ''Album'', EndElement ''key'',
          StartElement ''string'', CharData ''Before The Storm'', EndElement ''string'',
          StartElement ''key'', CharData ''Artist'', EndElement ''key'',
          StartElement ''string'', CharData ''Darude'', EndElement ''string'',
          StartElement ''key'', CharData ''Name'', EndElement ''key'',
          StartElement ''string'', CharData ''Sandstorm'', EndElement ''string'',
        EndElement ''dict'',
      EndElement ''dict'',
      StartElement ''key'', CharData ''Playlists'', EndElement ''key'',
      StartElement ''array'',
        StartElement ''dict'', EndElement ''dict'',
        StartElement ''dict'', EndElement ''dict'',
        StartElement ''dict'', EndElement ''dict'',
        StartElement ''dict'', EndElement ''dict'',
        StartElement ''dict'', EndElement ''dict'',
        StartElement ''dict'',
          StartElement ''key'', CharData ''Playlist Items'', EndElement ''key'',
          StartElement ''array'',
            StartElement ''dict'',
              StartElement ''key'', CharData ''Track ID'', EndElement ''key'',
              StartElement ''integer'', CharData ''1'', EndElement ''integer'',
            EndElement ''dict'',
          EndElement ''array'',
          StartElement ''key'', CharData ''Name'', EndElement ''key'',
          StartElement ''string'', CharData ''My Playlist'', EndElement ''string'',
        EndElement ''dict'',
      EndElement ''array'',
      EndElement ''dict'', EndElement ''plist''])
      = Wrote (WriteCSV ?ps)"
    unfolding main_csv_def Unmarshal_sandstorm_doc by simp
  with w n show ?thesis by simp
qed

section \<open>Keys and values in the dict loop\<close>

lemma decode_string_chardata:
  "decode_string (CharData s # EndElement n # ts) = Inr (s, ts)"
  by (simp add: decode_string_def)

text \<open>
  Two \<open>string\<close> elements after the key \<open>a\<close>: the dict holds the second text under
  \<open>a\<close>, not the first. A \<open>string\<close> element before any key: the dict holds it under
  the empty key.
\<close>

theorem second_value_overwrites_counterexample:
  "UnmarshalXML ''dict''
     [StartElement ''key'', CharData ''a'', EndElement ''key'',
      StartElement ''string'', CharData ''x'', EndElement ''string'',
      StartElement ''string'', CharData ''y'', EndElement ''string'',
      EndElement ''dict'']
     = Inr (Dict (fmupd ''a'' (VStr ''y'') fmempty), [])
   \<and> UnmarshalXML ''dict''
     [StartElement ''string'', CharData ''x'', EndElement ''string'',
      StartElement ''key'', CharData ''a'', EndElement ''key'',
      EndElement ''dict'']
     = Inr (Dict (fmupd [] (VStr ''x'') fmempty), [])"
  by (simp add: UnmarshalXML_def decode_string_chardata)

text \<open>
  C1, amended. A \<open>string\<close> or \<open>integer\<close> element that decodes is stored under the
  current content of the variable \<open>key\<close>, over whatever the mapping held there, and
  \<open>key\<close> stays as it is: it is never cleared, and it is the empty string until the
  first \<open>key\<close> element has been read. So of two value elements after one key element
  the mapping keeps the second under that key, and a value element before any key
  element is stored under the empty string.
\<close>

theorem value_stored_under_last_key:
  "(decode_string ts = Inr (v, rest) \<longrightarrow>
      dict_loop start key kvs (StartElement ''string'' # ts)
        = dict_loop start key (fmupd key (VStr v) kvs) rest)
   \<and> (decode_int ts = Inr (n, rest) \<longrightarrow>
      dict_loop start key kvs (StartElement ''integer'' # ts)
        = dict_loop start key (fmupd key (VInt n) kvs) rest)
   \<and> dict_loop start key kvs
        (StartElement ''key'' # CharData k # EndElement ''key'' #
         StartElement ''string'' # CharData v1 # EndElement ''string'' #
         StartElement ''string'' # CharData v2 # EndElement ''string'' #
         EndElement start # rest')
        = Inr (Dict (fmupd k (VStr v2) kvs), rest')
   \<and> UnmarshalXML start
        (StartElement ''string'' # CharData v1 # EndElement ''string'' #
         EndElement start # rest')
        = Inr (Dict (fmupd [] (VStr v1) fmempty), rest')"
  by (simp add: UnmarshalXML_def decode_string_chardata)

theorem value_stored_under_last_key_witness:
  "decode_string [CharData ''x'', EndElement ''string'', EndElement ''dict''] = Inr (''x'', [EndElement ''dict''])
   \<and> dict_loop ''dict'' ''a'' (fmupd ''a'' (VStr ''w'') fmempty)
        [StartElement ''string'', CharData ''x'', EndElement ''string'', EndElement ''dict'']
       = Inr (Dict (fmupd ''a'' (VStr ''x'') fmempty), [])
   \<and> decode_int [CharData ''12'', EndElement ''integer'', EndElement ''dict''] = Inr (12, [EndElement ''dict''])
   \<and> dict_loop ''dict'' ''a'' (fmupd ''a'' (VStr ''w'') fmempty)
        [StartElement ''integer'', CharData ''12'', EndElement ''integer'', EndElement ''dict'']
       = Inr (Dict (fmupd ''a'' (VInt 12) fmempty), [])"
proof -
  have s: "decode_string [CharData ''x'', EndElement ''string'', EndElement ''dict'']
             = Inr (''x'', [EndElement ''dict''])"
    by (simp add: decode_string_def)
  have i: "decode_int [CharData ''12'', EndElement ''integer'', EndElement ''dict'']
             = Inr (12, [EndElement ''dict''])"
    by (simp add: decode_int_def TrimSpace_def leading_width_def space_runes_def
          ParseInt_def digit_of_def)
  from value_stored_under_last_key[where
      ts = "[CharData ''x'', EndElement ''string'', EndElement ''dict'']" and v = "''x''"
      and rest = "[EndElement ''dict'']" and start = "''dict''" and key = "''a''"
      and kvs = "fmupd ''a'' (VStr ''w'') fmempty"]
  have 1: "dict_loop ''dict'' ''a'' (fmupd ''a'' (VStr ''w'') fmempty)
        [StartElement ''string'', CharData ''x'', EndElement ''string'', EndElement ''dict'']
       = Inr (Dict (fmupd ''a'' (VStr ''x'') fmempty), [])"
    using s by simp
  from value_stored_under_last_key[where
      ts = "[CharData ''12'', EndElement ''integer'', EndElement ''dict'']" and n = 12
      and rest = "[EndElement ''dict'']" and start = "''dict''" and key = "''a''"
      and kvs = "fmupd ''a'' (VStr ''w'') fmempty"]
  have 2: "dict_loop ''dict'' ''a'' (fmupd ''a'' (VStr ''w'') fmempty)
        [StartElement ''integer'', CharData ''12'', EndElement ''integer'', EndElement ''dict'']
       = Inr (Dict (fmupd ''a'' (VInt 12) fmempty), [])"
    using i by simp
  from s i 1 2 show ?thesis by simp
qed

section \<open>Elements of other names\<close>

text \<open>
  A key and its string inside a \<open>date\<close> element: the pair is in the dict.
\<close>

theorem unknown_element_not_skipped_counterexample:
  "UnmarshalXML ''dict''
     [StartElement ''date'',
        StartElement ''key'', CharData ''a'', EndElement ''key'',
        StartElement ''string'', CharData ''x'', EndElement ''string'',
      EndElement ''date'',
      EndElement ''dict'']
     = Inr (Dict (fmupd ''a'' (VStr ''x'') fmempty), [])"
  by (simp add: UnmarshalXML_def decode_string_chardata)

text \<open>
  C2, amended. A start element whose name is none of \<open>key\<close>, \<open>integer\<close>,
  \<open>string\<close>, \<open>dict\<close>, \<open>array\<close> stores nothing by itself and is not skipped: the
  loop passes over the start tag, and later over its end tag, and reads the tokens
  between them as tokens of the dict. A key and a string enclosed in such an element are
  therefore stored in the current dict.
\<close>

theorem unknown_element_is_read_through:
  assumes "n \<noteq> ''key''" "n \<noteq> ''integer''" "n \<noteq> ''string''" "n \<noteq> ''dict''" "n \<noteq> ''array''"
    and "n \<noteq> start"
  shows "dict_loop start key kvs (StartElement n # ts) = dict_loop start key kvs ts
       \<and> dict_loop start key kvs (EndElement n # ts) = dict_loop start key kvs ts
       \<and> dict_loop start key kvs
            (StartElement n #
               StartElement ''key'' # CharData k # EndElement ''key'' #
               StartElement ''string'' # CharData v # EndElement ''string'' #
             EndElement n # ts)
           = dict_loop start k (fmupd k (VStr v) kvs) ts"
  using assms by (simp add: decode_string_chardata)

theorem unknown_element_is_read_through_witness:
  "''date'' \<noteq> ''key'' \<and> ''date'' \<noteq> ''integer'' \<and> ''date'' \<noteq> ''string'' \<and> ''date'' \<noteq> ''dict''
   \<and> ''date'' \<noteq> ''array''
   \<and> dict_loop ''dict'' [] fmempty
        [StartElement ''date'',
           StartElement ''key'', CharData ''a'', EndElement ''key'',
           StartElement ''string'', CharData ''x'', EndElement ''string'',
         EndElement ''date'',
         EndElement ''dict'']
       = Inr (Dict (fmupd ''a'' (VStr ''x'') fmempty), [])"
  using unknown_element_is_read_through[of "''date''" "''dict''" "[]" fmempty
          "[EndElement ''dict'']" "''a''" "''x''"]
  by simp

section \<open>The order of the keys\<close>

text \<open>
  The keys \<open>a\<close>, \<open>b\<close> in this order and in the other order: the two documents
  decode to the same \<open>Dict\<close>, which therefore cannot yield the source order of both.
\<close>

theorem key_order_not_kept_counterexample:
  "UnmarshalXML ''dict''
     [StartElement ''key'', CharData ''a'', EndElement ''key'',
      StartElement ''string'', CharData ''x'', EndElement ''string'',
      StartElement ''key'', CharData ''b'', EndElement ''key'',
      StartElement ''string'', CharData ''y'', EndElement ''string'',
      EndElement ''dict'']
   = UnmarshalXML ''dict''
     [StartElement ''key'', CharData ''b'', EndElement ''key'',
      StartElement ''string'', CharData ''y'', EndElement ''string'',
      StartElement ''key'', CharData ''a'', EndElement ''key'',
      StartElement ''string'', CharData ''x'', EndElement ''string'',
      EndElement ''dict'']"
  by (simp add: UnmarshalXML_def decode_string_chardata
        fmupd_reorder_neq[of "''a''" "''b''"])

lemma dict_loop_pair:
  "dict_loop start key kvs (pair_tokens (k, v) @ ts)
     = dict_loop start k (fmupd k (VStr v) kvs) ts"
  by (simp add: pair_tokens_def decode_string_chardata)

lemma dict_loop_pairs:
  "\<exists>key'. dict_loop start key kvs (concat (map pair_tokens ps) @ ts)
     = dict_loop start key' (fold (\<lambda>(k, v). fmupd k (VStr v)) ps kvs) ts"
proof (induction ps arbitrary: key kvs)
  case Nil
  show ?case by auto
next
  case (Cons p ps)
  obtain k v where p: "p = (k, v)" by (cases p)
  from Cons[of k "fmupd k (VStr v) kvs"] p show ?case
    by (simp add: dict_loop_pair del: dict_loop.simps)
qed

lemma fold_fmupd_lookup:
  "fmlookup (fold (\<lambda>(k, v). fmupd k (VStr v)) ps kvs) x
     = (case map_of (rev ps) x of None \<Rightarrow> fmlookup kvs x | Some v \<Rightarrow> Some (VStr v))"
  by (induction ps arbitrary: kvs) (auto simp: map_add_def split: option.splits)

lemma fold_fmupd_perm:
  assumes "distinct (map fst ps)" "distinct (map fst qs)" "set ps = set qs"
  shows "fold (\<lambda>(k, v). fmupd k (VStr v)) ps kvs = fold (\<lambda>(k, v). fmupd k (VStr v)) qs kvs"
proof -
  have "map_of (rev ps) = map_of (rev qs)"
    using assms by (subst map_of_inject_set) (simp_all add: rev_map[symmetric])
  then show ?thesis
    by (intro fmap_ext) (simp add: fold_fmupd_lookup)
qed

text \<open>
  C9, amended. The \<open>Dict\<close> a decode returns is a mapping without an order of its keys:
  two dicts made of the same key and string pairs, all keys different, decode to the
  same value in whatever order the pairs stand. (Decoding is a function of the token
  stream, so two decodes of one document return equal values.)
\<close>

theorem dict_forgets_key_order:
  assumes "distinct (map fst ps)" "distinct (map fst qs)" "set ps = set qs"
  shows "dict_loop start key kvs (concat (map pair_tokens ps) @ EndElement start # rest)
       = dict_loop start key kvs (concat (map pair_tokens qs) @ EndElement start # rest)"
proof -
  from dict_loop_pairs[of start key kvs ps "EndElement start # rest"]
  have 1: "dict_loop start key kvs (concat (map pair_tokens ps) @ EndElement start # rest)
        = Inr (Dict (fold (\<lambda>(k, v). fmupd k (VStr v)) ps kvs), rest)"
    by auto
  from dict_loop_pairs[of start key kvs qs "EndElement start # rest"]
  have 2: "dict_loop start key kvs (concat (map pair_tokens qs) @ EndElement start # rest)
        = Inr (Dict (fold (\<lambda>(k, v). fmupd k (VStr v)) qs kvs), rest)"
    by auto
  from 1 2 fold_fmupd_perm[OF assms] show ?thesis by simp
qed

theorem dict_forgets_key_order_witness:
  "distinct (map fst [(''a'', ''x''), (''b'', ''y'')]) \<and>
   distinct (map fst [(''b'', ''y''), (''a'', ''x'')]) \<and>
   set [(''a'', ''x''), (''b'', ''y'')] = set [(''b'', ''y''), (''a'', ''x'')] \<and>
   dict_loop ''dict'' [] fmempty
     [StartElement ''key'', CharData ''a'', EndElement ''key'',
      StartElement ''string'', CharData ''x'', EndElement ''string'',
      StartElement ''key'', CharData ''b'', EndElement ''key'',
      StartElement ''string'', CharData ''y'', EndElement ''string'',
      EndElement ''dict'']
   = dict_loop ''dict'' [] fmempty
     [StartElement ''key'', CharData ''b'', EndElement ''key'',
      StartElement ''string'', CharData ''y'', EndElement ''string'',
      StartElement ''key'', CharData ''a'', EndElement ''key'',
      StartElement ''string'', CharData ''x'', EndElement ''string'',
      EndElement ''dict'']"
proof -
  have d: "distinct (map fst [(''a'', ''x''), (''b'', ''y'')])"
          "distinct (map fst [(''b'', ''y''), (''a'', ''x'')])"
          "set [(''a'', ''x''), (''b'', ''y'')] = set [(''b'', ''y''), (''a'', ''x'')]"
    by auto
  from dict_forgets_key_order[OF d, of "''dict''" "[]" fmempty "[]"] d
  show ?thesis by (simp add: pair_tokens_def del: dict_loop.simps)
qed

section \<open>Longer and shorter token streams\<close>

lemma Skip_TokenErr: "Skip depth ts = Inl e \<Longrightarrow> e = TokenErr"
  by (induction depth ts rule: Skip.induct) (auto split: if_splits)

lemma Skip_append: "Skip depth ts = Inr rest \<Longrightarrow> Skip depth (ts @ s) = Inr (rest @ s)"
  by (induction depth ts rule: Skip.induct) (auto split: if_splits)

lemma Skip_suffix: "Skip depth ts = Inr rest \<Longrightarrow> suffix rest ts"
  by (induction depth ts rule: Skip.induct) (auto split: if_splits intro: suffix_ConsI)

lemma element_data_TokenErr: "element_data data ts = Inl e \<Longrightarrow> e = TokenErr"
  by (induction data ts rule: element_data.induct)
     (auto split: sum.splits dest: Skip_TokenErr)

lemma element_data_append:
  "element_data data ts = Inr (x, rest) \<Longrightarrow> element_data data (ts @ s) = Inr (x, rest @ s)"
  by (induction data ts rule: element_data.induct)
     (auto split: sum.splits simp: Skip_append)

lemma element_data_suffix: "element_data data ts = Inr (x, rest) \<Longrightarrow> suffix rest ts"
proof (induction data ts rule: element_data.induct)
  case (2 data n ts)
  then obtain r where r: "Skip 0 ts = Inr r" "element_data data r = Inr (x, rest)"
    by (auto split: sum.splits)
  with 2 have "suffix rest r" by simp
  with Skip_suffix[OF r(1)] show ?case
    by (meson suffix_ConsI suffix_order.trans)
qed (auto intro: suffix_ConsI)

lemma decode_string_append:
  "decode_string ts = Inr (x, rest) \<Longrightarrow> decode_string (ts @ s) = Inr (x, rest @ s)"
  unfolding decode_string_def by (rule element_data_append)

lemma decode_string_TokenErr: "decode_string ts = Inl e \<Longrightarrow> e = TokenErr"
  unfolding decode_string_def by (rule element_data_TokenErr)

lemma decode_string_suffix: "decode_string ts = Inr (x, rest) \<Longrightarrow> suffix rest ts"
  unfolding decode_string_def by (rule element_data_suffix)

lemma decode_int_append:
  "decode_int ts = Inr (x, rest) \<Longrightarrow> decode_int (ts @ s) = Inr (x, rest @ s)"
  unfolding decode_int_def
  by (auto split: sum.splits if_splits option.splits simp: element_data_append)

lemma decode_int_error:
  "decode_int ts = Inl e \<Longrightarrow> e \<noteq> TokenErr \<Longrightarrow> decode_int (ts @ s) = Inl e"
  unfolding decode_int_def
  by (auto split: sum.splits if_splits option.splits
           simp: element_data_append dest: element_data_TokenErr)

lemma decode_int_suffix: "decode_int ts = Inr (x, rest) \<Longrightarrow> suffix rest ts"
  unfolding decode_int_def
  by (auto split: sum.splits if_splits option.splits dest: element_data_suffix)

lemma decode_string_extend:
  "decode_string ts \<noteq> Inl TokenErr \<Longrightarrow>
     decode_string (ts @ s) = extend_rest s (decode_string ts)"
  by (cases "decode_string ts") (auto simp: decode_string_append dest: decode_string_TokenErr)

lemma decode_int_extend:
  "decode_int ts \<noteq> Inl TokenErr \<Longrightarrow>
     decode_int (ts @ s) = extend_rest s (decode_int ts)"
  by (cases "decode_int ts") (auto simp: decode_int_append decode_int_error)

lemma bind_extend:
  assumes "(case f of Inl e \<Rightarrow> Inl e | Inr (v, rest) \<Rightarrow> g v rest) \<noteq> Inl TokenErr"
    and "f \<noteq> Inl TokenErr \<Longrightarrow> f' = extend_rest s f"
    and "\<And>v rest. f = Inr (v, rest) \<Longrightarrow> g v rest \<noteq> Inl TokenErr \<Longrightarrow>
           g v (rest @ s) = extend_rest s (g v rest)"
  shows "(case f' of Inl e \<Rightarrow> Inl e | Inr (v, rest) \<Rightarrow> g v rest)
           = extend_rest s (case f of Inl e \<Rightarrow> Inl e | Inr (v, rest) \<Rightarrow> g v rest)"
proof (cases f)
  case (Inl e)
  with assms(1) have "f \<noteq> Inl TokenErr" by auto
  from assms(2)[OF this] Inl show ?thesis by simp
next
  case (Inr b)
  obtain v rest where b: "b = (v, rest)" by (cases b)
  from assms(2) Inr b have f': "f' = Inr (v, rest @ s)" by simp
  from assms(1) Inr b have "g v rest \<noteq> Inl TokenErr" by simp
  from assms(3)[OF _ this] Inr b f' show ?thesis by simp
qed

lemma skip_extend:
  assumes "(case Skip 0 ts of Inl e \<Rightarrow> Inl e | Inr rest \<Rightarrow> g rest) \<noteq> Inl TokenErr"
    and "\<And>rest. Skip 0 ts = Inr rest \<Longrightarrow> g rest \<noteq> Inl TokenErr \<Longrightarrow>
           g (rest @ s) = extend_rest s (g rest)"
  shows "(case Skip 0 (ts @ s) of Inl e \<Rightarrow> Inl e | Inr rest \<Rightarrow> g rest)
           = extend_rest s (case Skip 0 ts of Inl e \<Rightarrow> Inl e | Inr rest \<Rightarrow> g rest)"
proof (cases "Skip 0 ts")
  case (Inl e)
  with assms(1) Skip_TokenErr[OF Inl] show ?thesis by simp
next
  case (Inr rest)
  from assms(1) Inr have "g rest \<noteq> Inl TokenErr" by simp
  from assms(2)[OF Inr this] Inr Skip_append[OF Inr, of s] show ?thesis by simp
qed

lemma dict_array_extend:
  "dict_loop start key kvs ts \<noteq> Inl TokenErr \<Longrightarrow>
     dict_loop start key kvs (ts @ s)
       = extend_rest s (dict_loop start key kvs ts)"
  "array_loop acc ts \<noteq> Inl TokenErr \<Longrightarrow>
     array_loop acc (ts @ s)
       = extend_rest s (array_loop acc ts)"
proof (induction start key kvs ts and acc ts rule: dict_loop_array_loop.induct)
  case (1 start key kvs)
  then show ?case by simp
next
  case (2 start key kvs n ts)
  then show ?case by (cases "n = start") simp_all
next
  case (3 start key kvs n ts)
  consider (key) "n = ''key''" | (int) "n = ''integer''" | (str) "n = ''string''"
    | (dict) "n = ''dict''" | (arr) "n = ''array''"
    | (other) "n \<noteq> ''key''" "n \<noteq> ''integer''" "n \<noteq> ''string''" "n \<noteq> ''dict''" "n \<noteq> ''array''"
    by blast
  then show ?case
  proof cases
    case key
    from "3.prems" key
    have p: "(case decode_string ts of Inl e \<Rightarrow> Inl e
              | Inr (k, rest) \<Rightarrow> dict_loop start k kvs rest) \<noteq> Inl TokenErr" by simp
    from bind_extend[OF p decode_string_extend "3.IH"(1)[OF key _ refl]] key
    show ?thesis by simp
  next
    case int
    from "3.prems" int
    have p: "(case decode_int ts of Inl e \<Rightarrow> Inl e
              | Inr (v, rest) \<Rightarrow> dict_loop start key (fmupd key (VInt v) kvs) rest) \<noteq> Inl TokenErr"
      by simp
    have nk: "n \<noteq> ''key''" using int by simp
    from bind_extend[OF p decode_int_extend "3.IH"(2)[OF nk int _ refl]] int
    show ?thesis by simp
  next
    case str
    from "3.prems" str
    have p: "(case decode_string ts of Inl e \<Rightarrow> Inl e
              | Inr (v, rest) \<Rightarrow> dict_loop start key (fmupd key (VStr v) kvs) rest) \<noteq> Inl TokenErr"
      by simp
    have nk: "n \<noteq> ''key''" "n \<noteq> ''integer''" using str by simp_all
    from bind_extend[OF p decode_string_extend "3.IH"(3)[OF nk str _ refl]] str
    show ?thesis by simp
  next
    case dict
    from "3.prems" dict
    have p: "(case dict_loop n [] fmempty ts of Inl e \<Rightarrow> Inl e
              | Inr (v, rest) \<Rightarrow> dict_loop start key (fmupd key (VDict v) kvs) rest) \<noteq> Inl TokenErr"
      by simp
    have nk: "n \<noteq> ''key''" "n \<noteq> ''integer''" "n \<noteq> ''string''" using dict by simp_all
    from bind_extend[OF p "3.IH"(4)[OF nk dict] "3.IH"(5)[OF nk dict _ refl]] dict
    show ?thesis by simp
  next
    case arr
    from "3.prems" arr
    have p: "(case array_loop [] ts of Inl e \<Rightarrow> Inl e
              | Inr (v, rest) \<Rightarrow> dict_loop start key (fmupd key (VArray v) kvs) rest) \<noteq> Inl TokenErr"
      by simp
    have nk: "n \<noteq> ''key''" "n \<noteq> ''integer''" "n \<noteq> ''string''" "n \<noteq> ''dict''" using arr by simp_all
    from bind_extend[OF p "3.IH"(6)[OF nk arr] "3.IH"(7)[OF nk arr _ refl]] arr
    show ?thesis by simp
  next
    case other
    from "3.prems" other have "dict_loop start key kvs ts \<noteq> Inl TokenErr" by simp
    from "3.IH"(8)[OF other this] other show ?thesis by simp
  qed
next
  case (9 acc n ts)
  show ?case
  proof (cases "n = ''dict''")
    case True
    from "9.prems" True
    have p: "(case dict_loop n [] fmempty ts of Inl e \<Rightarrow> Inl e
              | Inr (v, rest) \<Rightarrow> array_loop (acc @ [v]) rest) \<noteq> Inl TokenErr"
      by simp
    from bind_extend[OF p "9.IH"(1)[OF True] "9.IH"(2)[OF True _ refl]] True
    show ?thesis by simp
  next
    case False
    from "9.prems" False
    have p: "(case Skip 0 ts of Inl e \<Rightarrow> Inl e | Inr rest \<Rightarrow> array_loop acc rest) \<noteq> Inl TokenErr"
      by simp
    from skip_extend[OF p "9.IH"(3)[OF False]] False
    show ?thesis by simp
  qed
qed simp_all

lemma bind_suffix:
  assumes "(case f of Inl e \<Rightarrow> Inl e | Inr (v, r1) \<Rightarrow> g v r1) = Inr res"
    and "\<And>v r1. f = Inr (v, r1) \<Longrightarrow> suffix r1 ts"
    and "\<And>v r1. f = Inr (v, r1) \<Longrightarrow> g v r1 = Inr res \<Longrightarrow> suffix xs r1"
  shows "suffix xs (t # ts)"
proof (cases f)
  case (Inl e)
  with assms(1) show ?thesis by simp
next
  case (Inr b)
  obtain v r1 where b: "b = (v, r1)" by (cases b)
  from assms(1) Inr b have "g v r1 = Inr res" by simp
  from assms(3)[OF _ this] assms(2)[of v r1] Inr b
  have "suffix xs ts" by (auto intro: suffix_order.trans)
  then show ?thesis by (rule suffix_ConsI)
qed

lemma dict_array_suffix:
  "dict_loop start key kvs ts = Inr (d, rest) \<Longrightarrow> suffix (EndElement start # rest) ts"
  "array_loop acc ts = Inr (a, rest') \<Longrightarrow> suffix rest' ts"
proof (induction start key kvs ts and acc ts arbitrary: d rest and a rest'
       rule: dict_loop_array_loop.induct)
  case (1 start key kvs)
  then show ?case by simp
next
  case (2 start key kvs n ts)
  show ?case
  proof (cases "n = start")
    case True
    with "2.prems" show ?thesis by simp
  next
    case False
    with "2.prems" have "dict_loop start key kvs ts = Inr (d, rest)" by simp
    from "2.IH"[OF False this] show ?thesis by (rule suffix_ConsI)
  qed
next
  case (3 start key kvs n ts)
  consider (key) "n = ''key''" | (int) "n = ''integer''" | (str) "n = ''string''"
    | (dict) "n = ''dict''" | (arr) "n = ''array''"
    | (other) "n \<noteq> ''key''" "n \<noteq> ''integer''" "n \<noteq> ''string''" "n \<noteq> ''dict''" "n \<noteq> ''array''"
    by blast
  then show ?case
  proof cases
    case key
    from "3.prems" key
    have p: "(case decode_string ts of Inl e \<Rightarrow> Inl e
              | Inr (k, r1) \<Rightarrow> dict_loop start k kvs r1) = Inr (d, rest)" by simp
    show ?thesis
      by (rule bind_suffix[OF p decode_string_suffix "3.IH"(1)[OF key _ refl]])
  next
    case int
    from "3.prems" int
    have p: "(case decode_int ts of Inl e \<Rightarrow> Inl e
              | Inr (v, r1) \<Rightarrow> dict_loop start key (fmupd key (VInt v) kvs) r1) = Inr (d, rest)"
      by simp
    have nk: "n \<noteq> ''key''" using int by simp
    show ?thesis
      by (rule bind_suffix[OF p decode_int_suffix "3.IH"(2)[OF nk int _ refl]])
  next
    case str
    from "3.prems" str
    have p: "(case decode_string ts of Inl e \<Rightarrow> Inl e
              | Inr (v, r1) \<Rightarrow> dict_loop start key (fmupd key (VStr v) kvs) r1) = Inr (d, rest)"
      by simp
    have nk: "n \<noteq> ''key''" "n \<noteq> ''integer''" using str by simp_all
    show ?thesis
      by (rule bind_suffix[OF p decode_string_suffix "3.IH"(3)[OF nk str _ refl]])
  next
    case dict
    from "3.prems" dict
    have p: "(case dict_loop n [] fmempty ts of Inl e \<Rightarrow> Inl e
              | Inr (v, r1) \<Rightarrow> dict_loop start key (fmupd key (VDict v) kvs) r1) = Inr (d, rest)"
      by simp
    have nk: "n \<noteq> ''key''" "n \<noteq> ''integer''" "n \<noteq> ''string''" using dict by simp_all
    have inner: "suffix r1 ts" if "dict_loop n [] fmempty ts = Inr (v, r1)" for v r1
      using "3.IH"(4)[OF nk dict that] by (rule suffix_ConsD)
    show ?thesis
      by (rule bind_suffix[OF p inner "3.IH"(5)[OF nk dict _ refl]])
  next
    case arr
    from "3.prems" arr
    have p: "(case array_loop [] ts of Inl e \<Rightarrow> Inl e
              | Inr (v, r1) \<Rightarrow> dict_loop start key (fmupd key (VArray v) kvs) r1) = Inr (d, rest)"
      by simp
    have nk: "n \<noteq> ''key''" "n \<noteq> ''integer''" "n \<noteq> ''string''" "n \<noteq> ''dict''" using arr by simp_all
    show ?thesis
      by (rule bind_suffix[OF p "3.IH"(6)[OF nk arr] "3.IH"(7)[OF nk arr _ refl]])
  next
    case other
    from "3.prems" other have "dict_loop start key kvs ts = Inr (d, rest)" by simp
    from "3.IH"(8)[OF other this] show ?thesis by (rule suffix_ConsI)
  qed
next
  case (9 acc n ts)
  show ?case
  proof (cases "n = ''dict''")
    case True
    from "9.prems" True
    have p: "(case dict_loop n [] fmempty ts of Inl e \<Rightarrow> Inl e
              | Inr (v, r1) \<Rightarrow> array_loop (acc @ [v]) r1) = Inr (a, rest')"
      by simp
    have inner: "suffix r1 ts" if "dict_loop n [] fmempty ts = Inr (v, r1)" for v r1
      using "9.IH"(1)[OF True that] by (rule suffix_ConsD)
    show ?thesis
      by (rule bind_suffix[OF p inner "9.IH"(2)[OF True _ refl]])
  next
    case False
    with "9.prems" obtain r1 where r: "Skip 0 ts = Inr r1" "array_loop acc r1 = Inr (a, rest')"
      by (auto split: sum.splits)
    from "9.IH"(3)[OF False r] Skip_suffix[OF r(1)]
    have "suffix rest' ts" by (auto intro: suffix_order.trans)
    then show ?thesis by (rule suffix_ConsI)
  qed
qed (auto intro: suffix_ConsI)

lemma find_start_extend:
  "find_start ts \<noteq> Inl TokenErr \<Longrightarrow> find_start (ts @ s) = extend_rest s (find_start ts)"
  by (induction ts rule: find_start.induct) simp_all

lemma plist_loop_extend:
  "plist_loop i ts \<noteq> Inl TokenErr \<Longrightarrow> plist_loop i (ts @ s) = plist_loop i ts"
proof (induction i ts rule: plist_loop.induct)
  case (2 i n ts)
  show ?case
  proof (cases "n = ''dict''")
    case True
    show ?thesis
    proof (cases "dict_loop n [] fmempty ts")
      case (Inl e)
      with "2.prems" True have "dict_loop n [] fmempty ts \<noteq> Inl TokenErr"
        by (auto simp: UnmarshalXML_def)
      from dict_array_extend(1)[OF this, of s] Inl True show ?thesis
        by (simp add: UnmarshalXML_def)
    next
      case (Inr b)
      obtain v rest where b: "b = (v, rest)" by (cases b)
      from dict_array_extend(1)[of n "[]" fmempty ts s] Inr b
      have 1: "dict_loop n [] fmempty (ts @ s) = Inr (v, rest @ s)" by simp
      from "2.prems" True Inr b have "plist_loop (ITunesLib v) rest \<noteq> Inl TokenErr"
        by (simp add: UnmarshalXML_def)
      from "2.IH"(1)[OF True _ _ this, of "(v, rest)"] Inr b
      have "plist_loop (ITunesLib v) (rest @ s) = plist_loop (ITunesLib v) rest"
        by (simp add: UnmarshalXML_def)
      with 1 True Inr b show ?thesis by (simp add: UnmarshalXML_def)
    qed
  next
    case False
    show ?thesis
    proof (cases "Skip 0 ts")
      case (Inl e)
      with "2.prems" False Skip_TokenErr[OF Inl] show ?thesis by simp
    next
      case (Inr rest)
      from "2.prems" False Inr have "plist_loop i rest \<noteq> Inl TokenErr" by simp
      from "2.IH"(2)[OF False Inr this] Skip_append[OF Inr, of s] False Inr
      show ?thesis by simp
    qed
  qed
qed simp_all

lemma Unmarshal_extend:
  assumes "Unmarshal ts \<noteq> Inl TokenErr"
  shows "Unmarshal (ts @ s) = Unmarshal ts"
proof (cases "find_start ts")
  case (Inl e)
  with assms find_start_extend[of ts s] show ?thesis
    by (simp add: Unmarshal_def)
next
  case (Inr b)
  obtain n rest where b: "b = (n, rest)" by (cases b)
  from find_start_extend[of ts s] Inr b
  have 1: "find_start (ts @ s) = Inr (n, rest @ s)" by simp
  show ?thesis
  proof (cases "n = ''plist''")
    case True
    with assms Inr b have "plist_loop (ITunesLib (Dict fmempty)) rest \<noteq> Inl TokenErr"
      by (simp add: Unmarshal_def)
    from plist_loop_extend[OF this, of s] 1 Inr b True show ?thesis
      by (simp add: Unmarshal_def)
  next
    case False
    with 1 Inr b show ?thesis by (simp add: Unmarshal_def)
  qed
qed

lemma dict_loop_truncated:
  assumes ok: "dict_loop start key kvs ts = Inr (d, rest)"
    and ts: "ts = used @ rest"
    and p: "strict_prefix p used"
  shows "dict_loop start key kvs p = Inl TokenErr"
proof (rule ccontr)
  assume n: "dict_loop start key kvs p \<noteq> Inl TokenErr"
  from p obtain q where q: "used = p @ q" "q \<noteq> []"
    by (auto simp: strict_prefix_def prefix_def)
  from dict_array_extend(1)[OF n, of "q @ rest"] ok ts q
  have e: "extend_rest (q @ rest) (dict_loop start key kvs p) = Inr (d, rest)"
    by simp
  show False
  proof (cases "dict_loop start key kvs p")
    case (Inl e')
    with e show False by simp
  next
    case (Inr b)
    obtain d' r' where "b = (d', r')" by (cases b)
    with e Inr have "r' @ q @ rest = rest" by simp
    then have "length (r' @ q @ rest) = length rest" by simp
    with q(2) show False by simp
  qed
qed

text \<open>
  C7. When the dict loop returns a \<open>Dict\<close>, the last token it has read is the end
  element named like its start element, and on every stream that stops before that
  token it returns the error of \<open>d.Token()\<close>: no \<open>Dict\<close> comes out of a cut-off
  stream. An error of a nested \<open>UnmarshalXML\<close> is the result of the dict loop, the
  array loop and the struct decoder that called it; an error of \<open>xml.Unmarshal\<close> ends
  \<open>main\<close> in \<open>log.Fatalf\<close> before anything is printed or written. A stream that
  decodes without the token error decodes to the same result however it goes on.
\<close>

theorem truncated_dict_is_an_error:
  "(dict_loop start key kvs ts = Inr (d, rest) \<longrightarrow>
      (\<exists>used. ts = used @ EndElement start # rest \<and>
         (\<forall>p. strict_prefix p (used @ [EndElement start]) \<longrightarrow>
              dict_loop start key kvs p = Inl TokenErr)))
   \<and> (UnmarshalXML ''dict'' q = Inl e \<longrightarrow>
        dict_loop start key kvs (StartElement ''dict'' # q) = Inl e \<and>
        array_loop acc (StartElement ''dict'' # q) = Inl e \<and>
        plist_loop i (StartElement ''dict'' # q) = Inl e)
   \<and> (Unmarshal q' = Inl e' \<longrightarrow> main_csv debug outPath writable q' = ([], Fatal e'))
   \<and> (Unmarshal q' \<noteq> Inl TokenErr \<longrightarrow> Unmarshal (q' @ s) = Unmarshal q')"
proof (intro conjI impI)
  assume ok: "dict_loop start key kvs ts = Inr (d, rest)"
  from dict_array_suffix(1)[OF ok] obtain used where
    u: "ts = used @ EndElement start # rest"
    by (auto simp: suffix_def)
  have "dict_loop start key kvs p = Inl TokenErr"
    if "strict_prefix p (used @ [EndElement start])" for p
    using dict_loop_truncated[OF ok _ that] u by simp
  with u show "\<exists>used. ts = used @ EndElement start # rest \<and>
         (\<forall>p. strict_prefix p (used @ [EndElement start]) \<longrightarrow>
              dict_loop start key kvs p = Inl TokenErr)"
    by blast
next
  assume "UnmarshalXML ''dict'' q = Inl e"
  then show "dict_loop start key kvs (StartElement ''dict'' # q) = Inl e"
    by (simp add: UnmarshalXML_def)
next
  assume "UnmarshalXML ''dict'' q = Inl e"
  then show "array_loop acc (StartElement ''dict'' # q) = Inl e"
    by (simp add: UnmarshalXML_def)
next
  assume "UnmarshalXML ''dict'' q = Inl e"
  then show "plist_loop i (StartElement ''dict'' # q) = Inl e"
    by simp
next
  assume "Unmarshal q' = Inl e'"
  then show "main_csv debug outPath writable q' = ([], Fatal e')"
    by (simp add: main_csv_def)
next
  assume "Unmarshal q' \<noteq> Inl TokenErr"
  then show "Unmarshal (q' @ s) = Unmarshal q'"
    by (rule Unmarshal_extend)
qed

theorem truncated_dict_is_an_error_witness:
  "dict_loop ''dict'' [] fmempty
     [StartElement ''key'', CharData ''a'', EndElement ''key'',
      StartElement ''dict'', EndElement ''dict'',
      EndElement ''dict'', CharData ''after'']
     = Inr (Dict (fmupd ''a'' (VDict (Dict fmempty)) fmempty), [CharData ''after''])
   \<and> strict_prefix
        [StartElement ''key'', CharData ''a'', EndElement ''key'',
         StartElement ''dict'', EndElement ''dict'']
        ([StartElement ''key'', CharData ''a'', EndElement ''key'',
          StartElement ''dict'', EndElement ''dict''] @ [EndElement ''dict''])
   \<and> dict_loop ''dict'' [] fmempty
        [StartElement ''key'', CharData ''a'', EndElement ''key'',
         StartElement ''dict'', EndElement ''dict'']
       = Inl TokenErr
   \<and> UnmarshalXML ''dict''
        [StartElement ''key'', CharData ''a'', EndElement ''key'',
         StartElement ''dict'', EndElement ''dict'']
       = Inl TokenErr
   \<and> Unmarshal
        [StartElement ''plist'', StartElement ''dict'',
         StartElement ''key'', CharData ''a'', EndElement ''key'',
         StartElement ''dict'', EndElement ''dict'']
       = Inl TokenErr
   \<and> main_csv True ''playlists.txt'' True
        [StartElement ''plist'', StartElement ''dict'',
         StartElement ''key'', CharData ''a'', EndElement ''key'',
         StartElement ''dict'', EndElement ''dict'']
       = ([], Fatal TokenErr)
   \<and> Unmarshal
        [StartElement ''plist'', StartElement ''dict'', EndElement ''dict'', EndElement ''plist'']
       = Inr (ITunesLib (Dict fmempty))
   \<and> Unmarshal
        ([StartElement ''plist'', StartElement ''dict'', EndElement ''dict'', EndElement ''plist'']
           @ [CharData ''after''])
       = Inr (ITunesLib (Dict fmempty))"
proof -
  let ?p = "[StartElement ''key'', CharData ''a'', EndElement ''key'',
             StartElement ''dict'', EndElement ''dict'']"
  let ?doc = "[StartElement ''plist'', StartElement ''dict'', EndElement ''dict'', EndElement ''plist'']"
  have ok: "dict_loop ''dict'' [] fmempty (?p @ [EndElement ''dict'', CharData ''after''])
     = Inr (Dict (fmupd ''a'' (VDict (Dict fmempty)) fmempty), [CharData ''after''])"
    by (simp add: decode_string_chardata)
  have sp: "strict_prefix ?p (?p @ [EndElement ''dict''])"
    by simp
  note t = truncated_dict_is_an_error[where start = "''dict''" and key = "[]" and kvs = fmempty
      and ts = "?p @ [EndElement ''dict'', CharData ''after'']"
      and d = "Dict (fmupd ''a'' (VDict (Dict fmempty)) fmempty)" and rest = "[CharData ''after'']"
      and q = ?p and e = TokenErr and i = "ITunesLib (Dict fmempty)"]
  from t ok obtain used where
    u: "?p @ [EndElement ''dict'', CharData ''after''] = used @ EndElement ''dict'' # [CharData ''after'']"
    and a: "\<forall>p. strict_prefix p (used @ [EndElement ''dict'']) \<longrightarrow>
              dict_loop ''dict'' [] fmempty p = Inl TokenErr"
    by blast
  from u have "used = ?p" by simp
  with a sp have 1: "dict_loop ''dict'' [] fmempty ?p = Inl TokenErr" by blast
  then have 2: "UnmarshalXML ''dict'' ?p = Inl TokenErr"
    by (simp add: UnmarshalXML_def)
  with t have "plist_loop (ITunesLib (Dict fmempty)) (StartElement ''dict'' # ?p) = Inl TokenErr"
    by blast
  then have 3: "Unmarshal (StartElement ''plist'' # StartElement ''dict'' # ?p) = Inl TokenErr"
    by (simp add: Unmarshal_def del: plist_loop.simps)
  from truncated_dict_is_an_error[where q' = "StartElement ''plist'' # StartElement ''dict'' # ?p"
      and e' = TokenErr and debug = True and outPath = "''playlists.txt''"
      and writable = True] 3
  have 4: "main_csv True ''playlists.txt'' True (StartElement ''plist'' # StartElement ''dict'' # ?p)
             = ([], Fatal TokenErr)"
    by blast
  have 5: "Unmarshal ?doc = Inr (ITunesLib (Dict fmempty))"
    by (simp add: Unmarshal_def UnmarshalXML_def)
  from truncated_dict_is_an_error[where q' = ?doc and s = "[CharData ''after'']"] 5
  have 6: "Unmarshal (?doc @ [CharData ''after'']) = Inr (ITunesLib (Dict fmempty))"
    by simp
  from ok sp 1 2 3 4 5 6 show ?thesis by simp
qed

end
